theory Spec2Isabelle
  imports Complex_Main "HOL-Library.Sublist"
begin

text \<open>
  A shallow embedding of the logo remover: the retry wrapper around the calls to the
  model service, the phrase that tells the service where the selected object lies, the
  two calls of the remote edit client, and the state machine of the \<open>App\<close> component
  with the controls its views offer. Pure functions of the source are functions here;
  a promise is the way it settles; a handler is a function from state to state.
\<close>

section \<open>Strings and thrown values\<close>

text \<open>
  JavaScript strings are modelled as \<open>string\<close> (lists of characters).
  \<open>str_includes s sub\<close> is \<open>s.includes(sub)\<close>: \<open>sub\<close> occurs in \<open>s\<close> as a
  contiguous run of characters (the empty string occurs everywhere).
\<close>

fun str_includes :: "string \<Rightarrow> string \<Rightarrow> bool" where
  "str_includes [] sub = (sub = [])"
| "str_includes (c # cs) sub = (prefix sub (c # cs) \<or> str_includes cs sub)"

text \<open>
  The decimal rendering of a natural number, as a template literal or \<open>String\<close>
  produces it for a non-negative integer below \<open>10^21\<close>.
\<close>

definition digitChar :: "nat \<Rightarrow> char" where
  "digitChar d = char_of (48 + d)"

fun Number_toString :: "nat \<Rightarrow> string" where
  "Number_toString n =
     (if n < 10 then [digitChar n] else Number_toString (n div 10) @ [digitChar (n mod 10)])"

declare Number_toString.simps [simp del]

text \<open>
  A value caught by \<open>catch (error)\<close> is either an \<open>Error\<close> object, with its
  \<open>name\<close> and \<open>message\<close>, or some other value, of which the code only ever uses the
  rendering \<open>String(error)\<close>. \<open>String_of\<close> is \<open>String(error)\<close>; for an \<open>Error\<close> it is
  \<open>Error.prototype.toString\<close>: the name, a colon and a space, the message, with the
  separator left out when either part is empty.
\<close>

datatype thrown = JsError (name: string) (message: string) | NonError (rendering: string)

fun String_of :: "thrown \<Rightarrow> string" where
  "String_of (JsError n m) = (if n = [] then m else if m = [] then n else n @ '': '' @ m)"
| "String_of (NonError s) = s"

fun instanceofError :: "thrown \<Rightarrow> bool" where
  "instanceofError (JsError n m) = True"
| "instanceofError (NonError s) = False"

text \<open>
  A promise either resolves with a value, rejects with a thrown value, or never settles
  (the code awaiting it is then never resumed).
\<close>

datatype 'a outcome = Resolved 'a | Rejected thrown | Pending

section \<open>Numbers\<close>

text \<open>
  A JavaScript number is an IEEE 754 double. A finite double is carried as the rational
  it denotes; the two zeros are not told apart. \<open>toDouble\<close> rounds a rational to the
  nearest double, ties to the even significand: the quantum of a value with binary
  exponent \<open>e\<close> is \<open>2 ^ (e - 52)\<close>, and never below \<open>2 ^ -1074\<close> (the subnormal
  range); a result of \<open>2 ^ 1024\<close> or more is an infinity. The arithmetic operators
  compute the exact result and round it; a comparison with \<open>NaN\<close> is false.
\<close>

datatype number = Finite rat | PosInfinity | NegInfinity | NaN

text \<open>
  \<open>bitLength n\<close> is the number of binary digits of a positive integer, and
  \<open>binaryExponent v\<close> the exponent \<open>e\<close> with \<open>2 ^ e \<le> v < 2 ^ (e + 1)\<close> of a
  positive rational.
\<close>

function bitLength :: "int \<Rightarrow> int" where
  "bitLength n = (if n \<le> 0 then 0 else 1 + bitLength (n div 2))"
  by pat_completeness auto
termination
  by (relation "measure nat") auto

declare bitLength.simps [simp del]

definition binaryExponent :: "rat \<Rightarrow> int" where
  "binaryExponent v =
     (if 1 \<le> v then bitLength \<lfloor>v\<rfloor> - 1
      else - bitLength (\<lceil>1 / v\<rceil> - 1))"

definition roundHalfEven :: "rat \<Rightarrow> int" where
  "roundHalfEven q =
     (let f = \<lfloor>q\<rfloor>; d = q - of_int f
      in if d < 1 / 2 then f
         else if 1 / 2 < d then f + 1
         else if even f then f else f + 1)"

definition minQuantum :: int where
  "minQuantum = - 1074"

definition overflowThreshold :: rat where
  "overflowThreshold = 2 ^ 1024"

definition quantumExponent :: "rat \<Rightarrow> int" where
  "quantumExponent a = max (binaryExponent a - 52) minQuantum"

definition roundToQuantum :: "rat \<Rightarrow> int \<Rightarrow> rat" where
  "roundToQuantum a q = of_int (roundHalfEven (a / 2 powi q)) * 2 powi q"

definition toDouble :: "rat \<Rightarrow> number" where
  "toDouble v =
     (if v = 0 then Finite 0
      else
        (let r = roundToQuantum \<bar>v\<bar> (quantumExponent \<bar>v\<bar>)
         in if overflowThreshold \<le> r then (if 0 < v then PosInfinity else NegInfinity)
            else Finite (if 0 < v then r else - r)))"

text \<open>A rational is a double when rounding leaves it as it is.\<close>

definition isDouble :: "rat \<Rightarrow> bool" where
  "isDouble v \<longleftrightarrow> toDouble v = Finite v"

text \<open>The operators \<open>+\<close>, \<open>*\<close>, \<open>/\<close> and \<open><\<close> on numbers.\<close>

fun n_add :: "number \<Rightarrow> number \<Rightarrow> number" where
  "n_add (Finite a) (Finite b) = toDouble (a + b)"
| "n_add NaN b = NaN"
| "n_add a NaN = NaN"
| "n_add PosInfinity NegInfinity = NaN"
| "n_add NegInfinity PosInfinity = NaN"
| "n_add PosInfinity b = PosInfinity"
| "n_add a PosInfinity = PosInfinity"
| "n_add NegInfinity b = NegInfinity"
| "n_add a NegInfinity = NegInfinity"

fun n_mul :: "number \<Rightarrow> number \<Rightarrow> number" where
  "n_mul (Finite a) (Finite b) = toDouble (a * b)"
| "n_mul NaN b = NaN"
| "n_mul a NaN = NaN"
| "n_mul PosInfinity (Finite b) =
     (if b = 0 then NaN else if 0 < b then PosInfinity else NegInfinity)"
| "n_mul NegInfinity (Finite b) =
     (if b = 0 then NaN else if 0 < b then NegInfinity else PosInfinity)"
| "n_mul (Finite a) PosInfinity =
     (if a = 0 then NaN else if 0 < a then PosInfinity else NegInfinity)"
| "n_mul (Finite a) NegInfinity =
     (if a = 0 then NaN else if 0 < a then NegInfinity else PosInfinity)"
| "n_mul PosInfinity PosInfinity = PosInfinity"
| "n_mul PosInfinity NegInfinity = NegInfinity"
| "n_mul NegInfinity PosInfinity = NegInfinity"
| "n_mul NegInfinity NegInfinity = PosInfinity"

fun n_div :: "number \<Rightarrow> number \<Rightarrow> number" where
  "n_div (Finite a) (Finite b) =
     (if b = 0 then (if a = 0 then NaN else if 0 < a then PosInfinity else NegInfinity)
      else toDouble (a / b))"
| "n_div NaN b = NaN"
| "n_div a NaN = NaN"
| "n_div (Finite a) PosInfinity = Finite 0"
| "n_div (Finite a) NegInfinity = Finite 0"
| "n_div PosInfinity (Finite b) = (if 0 \<le> b then PosInfinity else NegInfinity)"
| "n_div NegInfinity (Finite b) = (if 0 \<le> b then NegInfinity else PosInfinity)"
| "n_div PosInfinity PosInfinity = NaN"
| "n_div PosInfinity NegInfinity = NaN"
| "n_div NegInfinity PosInfinity = NaN"
| "n_div NegInfinity NegInfinity = NaN"

fun n_less :: "number \<Rightarrow> number \<Rightarrow> bool" where
  "n_less (Finite a) (Finite b) \<longleftrightarrow> a < b"
| "n_less NaN b \<longleftrightarrow> False"
| "n_less a NaN \<longleftrightarrow> False"
| "n_less a NegInfinity \<longleftrightarrow> False"
| "n_less PosInfinity b \<longleftrightarrow> False"
| "n_less NegInfinity b \<longleftrightarrow> True"
| "n_less a PosInfinity \<longleftrightarrow> True"

section \<open>The retry controller\<close>

definition MAX_RETRIES :: nat where
  "MAX_RETRIES = 3"

definition isQuotaErrorString :: "string \<Rightarrow> bool" where
  "isQuotaErrorString errorString \<longleftrightarrow>
     str_includes errorString ''429'' \<or> str_includes errorString ''RESOURCE_EXHAUSTED''"

text \<open>
  The regular expression \<open>/"retryDelay":"(\d+)/\<close>. \<open>retryDelayMarker\<close> is its literal
  part (\<open>CHR 0x22\<close> is the double quote); \<open>matchAt\<close> tries the expression at the start
  of a string and yields the captured group, the longest run of decimal digits after
  the marker, which must not be empty; \<open>matchRetryDelay\<close> is \<open>errorString.match\<close>:
  the leftmost position at which the expression matches.
\<close>

definition retryDelayMarker :: string where
  "retryDelayMarker = CHR 0x22 # ''retryDelay'' @ [CHR 0x22] @ '':'' @ [CHR 0x22]"

definition isDigit :: "char \<Rightarrow> bool" where
  "isDigit c \<longleftrightarrow> 48 \<le> (of_char c :: nat) \<and> (of_char c :: nat) \<le> 57"

definition matchAt :: "string \<Rightarrow> string option" where
  "matchAt s =
     (if prefix retryDelayMarker s
      then (let digits = takeWhile isDigit (drop (length retryDelayMarker) s)
            in if digits = [] then None else Some digits)
      else None)"

fun matchRetryDelay :: "string \<Rightarrow> string option" where
  "matchRetryDelay [] = None"
| "matchRetryDelay (c # cs) =
     (case matchAt (c # cs) of Some digits \<Rightarrow> Some digits | None \<Rightarrow> matchRetryDelay cs)"

text \<open>
  \<open>parseInt(digits, 10)\<close> on a non-empty string of decimal digits: the integer the
  digits denote, as a number. It is modelled as correctly rounded; the language lets an
  engine approximate after the 20th significant digit.
\<close>

definition digitValue :: "char \<Rightarrow> nat" where
  "digitValue c = of_char c - 48"

definition decimalValue :: "string \<Rightarrow> nat" where
  "decimalValue digits = foldl (\<lambda>acc c. 10 * acc + digitValue c) 0 digits"

definition parseInt :: "string \<Rightarrow> number" where
  "parseInt digits = toDouble (of_nat (decimalValue digits))"

text \<open>
  The delay chosen after a quota error on attempt \<open>i\<close> (counted from 0), in
  milliseconds: \<open>5000 * Math.pow(2, i)\<close>, replaced by
  \<open>parseInt(match[1], 10) * 1000 + 500\<close> when the expression matches.
\<close>

definition computeDelay :: "nat \<Rightarrow> string \<Rightarrow> number" where
  "computeDelay i errorString =
     (case matchRetryDelay errorString of
        Some digits \<Rightarrow> n_add (n_mul (parseInt digits) (Finite 1000)) (Finite 500)
      | None \<Rightarrow> n_mul (Finite 5000) (toDouble (2 ^ i)))"

text \<open>
  The delay is handed to \<open>setTimeout\<close>, which keeps it as a signed 32-bit integer:
  \<open>maxTimerDelay\<close> is the longest delay, in milliseconds, that a timer waits.
\<close>

definition maxTimerDelay :: nat where
  "maxTimerDelay = 2147483647"

definition quotaExceededMessage :: "string \<Rightarrow> string" where
  "quotaExceededMessage serviceName =
     ''You have exceeded your API quota for '' @ serviceName @
     ''. After multiple retries, the service is still unavailable. Please check your plan and billing details, or try again later.''"

text \<open>
  One run of \<open>withRetry\<close>: how the returned promise settles, the delays handed to
  \<open>setTimeout\<close> between attempts, in order, and how often \<open>apiCall\<close> was invoked.
  \<open>apiCall i\<close> is the outcome of the invocation made in iteration \<open>i\<close> of the loop.
\<close>

record 'a retry_run =
  settled :: "'a outcome"
  delays :: "number list"
  attempts :: nat

function withRetry_loop ::
  "(nat \<Rightarrow> 'a outcome) \<Rightarrow> string \<Rightarrow> nat \<Rightarrow> number list \<Rightarrow> 'a retry_run" where
  "withRetry_loop apiCall serviceName i waited =
     (if i < MAX_RETRIES then
        (case apiCall i of
           Resolved v \<Rightarrow> \<lparr>settled = Resolved v, delays = waited, attempts = i + 1\<rparr>
         | Pending \<Rightarrow> \<lparr>settled = Pending, delays = waited, attempts = i + 1\<rparr>
         | Rejected err \<Rightarrow>
             (if \<not> isQuotaErrorString (String_of err)
              then \<lparr>settled = Rejected err, delays = waited, attempts = i + 1\<rparr>
              else if i < MAX_RETRIES - 1
              then withRetry_loop apiCall serviceName (i + 1)
                     (waited @ [computeDelay i (String_of err)])
              else withRetry_loop apiCall serviceName (i + 1) waited))
      else \<lparr>settled = Rejected (JsError ''Error'' (quotaExceededMessage serviceName)),
             delays = waited, attempts = i\<rparr>)"
  by pat_completeness auto
termination
  by (relation "measure (\<lambda>(apiCall, serviceName, i, waited). MAX_RETRIES - i)") auto

declare withRetry_loop.simps [simp del]

definition withRetry :: "(nat \<Rightarrow> 'a outcome) \<Rightarrow> string \<Rightarrow> 'a retry_run" where
  "withRetry apiCall serviceName = withRetry_loop apiCall serviceName 0 []"

section \<open>The positional descriptor\<close>

text \<open>
  A selection rectangle, in pixels of the displayed frame. Its fields are finite
  doubles, carried as rationals.
\<close>

record Selection =
  x :: rat
  y :: rat
  width :: rat
  height :: rat

text \<open>
  \<open>getPositionalDescription\<close> names the cell, of the 3 by 3 grid of thirds of the
  image, that holds the centre of the selection. The image dimensions are finite
  doubles too; every operation is the one on doubles.
\<close>

definition getPositionalDescription :: "Selection \<Rightarrow> rat \<Rightarrow> rat \<Rightarrow> string" where
  "getPositionalDescription selection imageWidth imageHeight =
     (let centerX = n_add (Finite (x selection)) (n_div (Finite (width selection)) (Finite 2));
          centerY = n_add (Finite (y selection)) (n_div (Finite (height selection)) (Finite 2));
          horizontalThird = n_div (Finite imageWidth) (Finite 3);
          verticalThird = n_div (Finite imageHeight) (Finite 3);
          verticalPos =
            (if n_less centerY verticalThird then ''top''
             else if n_less (n_mul verticalThird (Finite 2)) centerY then ''bottom''
             else ''middle'');
          horizontalPos =
            (if n_less centerX horizontalThird then ''left''
             else if n_less (n_mul horizontalThird (Finite 2)) centerX then ''right''
             else ''center'')
      in if verticalPos = ''middle'' \<and> horizontalPos = ''center'' then ''in the center''
         else if verticalPos = ''middle'' then ''in the center '' @ horizontalPos
         else if horizontalPos = ''center'' then ''in the '' @ verticalPos @ '' center''
         else ''in the '' @ verticalPos @ '' '' @ horizontalPos @ '' area'')"

text \<open>The nine phrases.\<close>

definition positionPhrases :: "string list" where
  "positionPhrases =
     [''in the center'', ''in the center left'', ''in the center right'',
      ''in the top center'', ''in the bottom center'',
      ''in the top left area'', ''in the top right area'',
      ''in the bottom left area'', ''in the bottom right area'']"

section \<open>The remote edit client\<close>

text \<open>
  Each run of the closure handed to \<open>withRetry\<close> talks to collaborators outside the
  program (the image decoder, the model service, the download). An attempt is described
  by the step at which it ends; what the closure itself does with that step (the checks
  it makes, the errors it raises) is \<open>inpaintCall\<close> and \<open>animateCall\<close>.
\<close>

datatype inpaint_attempt =
    InpaintDimensionsRejected thrown
  | GenerateContentRejected thrown
  | GenerateContentPending
  | NoInlineData
  | InlineData string

fun inpaintCall :: "inpaint_attempt \<Rightarrow> string outcome" where
  "inpaintCall (InpaintDimensionsRejected e) = Rejected e"
| "inpaintCall (GenerateContentRejected e) = Rejected e"
| "inpaintCall GenerateContentPending = Pending"
| "inpaintCall NoInlineData = Rejected (JsError ''Error'' ''No image data returned from API.'')"
| "inpaintCall (InlineData d) = Resolved d"

definition removeObjectFromFrame :: "(nat \<Rightarrow> inpaint_attempt) \<Rightarrow> string outcome" where
  "removeObjectFromFrame env =
     (case settled (withRetry (\<lambda>k. inpaintCall (env k)) ''image processing'') of
        Resolved v \<Rightarrow> Resolved v
      | Pending \<Rightarrow> Pending
      | Rejected err \<Rightarrow>
          (case err of
             JsError n m \<Rightarrow>
               if str_includes m ''API quota'' then Rejected err
               else if str_includes m ''403''
               then Rejected (JsError ''Error'' ''API key is invalid or lacks permissions.'')
               else Rejected (JsError ''Error'' ''Failed to process image with the AI model.'')
           | NonError s \<Rightarrow>
               Rejected (JsError ''Error'' ''Failed to process image with the AI model.'')))"

text \<open>
  In \<open>DownloadNotOk\<close> the response of the download is not \<open>ok\<close>; it carries the body
  text and the status. \<open>PollPending\<close> stands for a generation whose operation never
  reports \<open>done\<close>, or a request that never answers: the polling loop has no bound.
\<close>

datatype animate_attempt =
    AnimateDimensionsRejected thrown
  | GenerateVideosRejected thrown
  | PollRejected thrown
  | PollPending
  | NoDownloadLink
  | FetchRejected thrown
  | DownloadNotOk string nat
  | Downloaded string

fun animateCall :: "animate_attempt \<Rightarrow> string outcome" where
  "animateCall (AnimateDimensionsRejected e) = Rejected e"
| "animateCall (GenerateVideosRejected e) = Rejected e"
| "animateCall (PollRejected e) = Rejected e"
| "animateCall PollPending = Pending"
| "animateCall NoDownloadLink =
     Rejected (JsError ''Error'' ''Video generation succeeded but no download link was provided.'')"
| "animateCall (FetchRejected e) = Rejected e"
| "animateCall (DownloadNotOk errorText status) =
     (if str_includes errorText ''Requested entity was not found.''
      then Rejected (JsError ''Error'' ''API key not found. Please select your API key again.'')
      else Rejected (JsError ''Error''
             (''Failed to download the generated video. Status: '' @ Number_toString status)))"
| "animateCall (Downloaded url) = Resolved url"

definition generateVideoFromFrame :: "(nat \<Rightarrow> animate_attempt) \<Rightarrow> string outcome" where
  "generateVideoFromFrame env =
     (case settled (withRetry (\<lambda>k. animateCall (env k)) ''video generation'') of
        Resolved v \<Rightarrow> Resolved v
      | Pending \<Rightarrow> Pending
      | Rejected err \<Rightarrow>
          (let errorString = String_of err in
           if str_includes errorString ''API quota'' \<or> str_includes errorString ''API key not found''
           then (if instanceofError err then Rejected err
                 else Rejected (JsError ''Error'' errorString))
           else if str_includes errorString ''404'' \<or> str_includes errorString ''NOT_FOUND''
           then Rejected (JsError ''Error''
                  ''API key not found or project is not configured for Veo. Please select a valid API key again.'')
           else if str_includes errorString ''403'' \<or> str_includes errorString ''API_KEY_INVALID''
           then Rejected (JsError ''Error''
                  ''API key is invalid or lacks permissions for the Veo model.'')
           else Rejected (JsError ''Error'' ''Failed to generate video with the AI model.'')))"

section \<open>The application state machine\<close>

datatype AppState =
  Idle | Video_loaded | Processing | Generating_video | Complete | Video_complete | Error

text \<open>An uploaded file: its name and its MIME type.\<close>

datatype File = File (fileName: string) (fileType: string)

text \<open>
  The state of the \<open>App\<close> component, one field for each \<open>useState\<close>. \<open>null\<close> is
  \<open>None\<close>. \<open>truthy\<close> is the test \<open>if (src)\<close> on a string or \<open>null\<close>.
\<close>

record App =
  appState :: AppState
  videoFile :: "File option"
  frameSrc :: "string option"
  selection :: "Selection option"
  processedImageSrc :: "string option"
  processedVideoUrl :: "string option"
  isApiKeySelected :: "bool option"
  error :: "string option"
  isQuotaError :: bool
  progress :: nat

definition initialApp :: App where
  "initialApp =
     \<lparr>appState = Idle, videoFile = None, frameSrc = None, selection = None,
      processedImageSrc = None, processedVideoUrl = None, isApiKeySelected = None,
      error = None, isQuotaError = False, progress = 0\<rparr>"

fun truthy :: "string option \<Rightarrow> bool" where
  "truthy None = False"
| "truthy (Some s) = (s \<noteq> [])"

text \<open>\<open>src.split(',')[1]\<close>: the text between the first comma and the second, if any.\<close>

definition splitComma1 :: "string \<Rightarrow> string option" where
  "splitComma1 src =
     (case dropWhile (\<lambda>c. c \<noteq> CHR '','') src of
        [] \<Rightarrow> None
      | c # rest \<Rightarrow> Some (takeWhile (\<lambda>c. c \<noteq> CHR '','') rest))"

text \<open>
  The mount effect \<open>checkApiKey\<close>. Its argument is what the host offers: \<open>None\<close>
  when \<open>window.aistudio\<close> (or its function \<open>hasSelectedApiKey\<close>) is missing,
  \<open>Some hasKey\<close> for the answer of \<open>hasSelectedApiKey\<close>.
\<close>

definition checkApiKey :: "bool option \<Rightarrow> App \<Rightarrow> App" where
  "checkApiKey aistudio s =
     (case aistudio of
        Some hasKey \<Rightarrow> s\<lparr>isApiKeySelected := Some hasKey\<rparr>
      | None \<Rightarrow> s\<lparr>isApiKeySelected := Some True\<rparr>)"

text \<open>
  An asynchronous handler is split at its \<open>await\<close>: the part that runs at the click,
  which may issue a request, and the part that runs when the awaited promise settles,
  on the state of that moment. A promise that never settles leaves the state as it is.
  What the later part reads from the closure of the handler is what the state held at
  the click; the request carries it.
\<close>

definition handleFileSelect_begin :: "File \<Rightarrow> App \<Rightarrow> App" where
  "handleFileSelect_begin file s =
     s\<lparr>videoFile := Some file, appState := Processing, error := None, isQuotaError := False\<rparr>"

definition handleFileSelect_settle :: "string outcome \<Rightarrow> App \<Rightarrow> App" where
  "handleFileSelect_settle r s =
     (case r of
        Resolved frameDataUrl \<Rightarrow> s\<lparr>frameSrc := Some frameDataUrl, appState := Video_loaded\<rparr>
      | Rejected e \<Rightarrow>
          s\<lparr>error := Some ''Failed to load video or extract frame. Please try another file.'',
            appState := Error\<rparr>
      | Pending \<Rightarrow> s)"

datatype request =
    ExtractFrame File
  | Inpaint "string option" Selection
  | Animate "string option"
  | SelectKey bool "string option" "string option"

definition handleRemoveLogo_begin :: "App \<Rightarrow> App \<times> request option" where
  "handleRemoveLogo_begin s =
     (case (frameSrc s, selection s) of
        (Some src, Some sel) \<Rightarrow>
          if src = [] then (s, None)
          else (s\<lparr>appState := Processing, error := None, isQuotaError := False\<rparr>,
                Some (Inpaint (splitComma1 src) sel))
      | _ \<Rightarrow> (s, None))"

text \<open>\<open>e instanceof Error ? e.message : 'An unknown error occurred.'\<close>\<close>

fun errorMessageOf :: "thrown \<Rightarrow> string" where
  "errorMessageOf (JsError n m) = m"
| "errorMessageOf (NonError s) = ''An unknown error occurred.''"

definition handleRemoveLogo_settle :: "string outcome \<Rightarrow> App \<Rightarrow> App" where
  "handleRemoveLogo_settle r s =
     (case r of
        Resolved resultBase64 \<Rightarrow>
          s\<lparr>progress := 100,
            processedImageSrc := Some (''data:image/png;base64,'' @ resultBase64),
            appState := Complete\<rparr>
      | Rejected e \<Rightarrow>
          (let errorMessage = errorMessageOf e;
               s1 = s\<lparr>progress := 0\<rparr>;
               s2 = (if str_includes errorMessage ''API quota''
                     then s1\<lparr>isQuotaError := True\<rparr> else s1)
           in s2\<lparr>error := Some errorMessage, appState := Error\<rparr>)
      | Pending \<Rightarrow> s)"

definition handleGenerateVideo_begin :: "App \<Rightarrow> App \<times> request option" where
  "handleGenerateVideo_begin s =
     (case processedImageSrc s of
        Some src \<Rightarrow>
          if src = [] then (s, None)
          else (s\<lparr>appState := Generating_video, error := None, isQuotaError := False\<rparr>,
                Some (Animate (splitComma1 src)))
      | None \<Rightarrow> (s, None))"

definition handleGenerateVideo_settle :: "string outcome \<Rightarrow> App \<Rightarrow> App" where
  "handleGenerateVideo_settle r s =
     (case r of
        Resolved videoUrl \<Rightarrow> s\<lparr>processedVideoUrl := Some videoUrl, appState := Video_complete\<rparr>
      | Rejected e \<Rightarrow>
          (let errorMessage = errorMessageOf e;
               s1 = (if str_includes errorMessage ''API quota''
                        \<or> str_includes errorMessage ''API key not found''
                     then s\<lparr>isQuotaError := True\<rparr> else s);
               s2 = (if str_includes errorMessage ''API key not found''
                     then s1\<lparr>isApiKeySelected := Some False\<rparr> else s1)
           in s2\<lparr>error := Some errorMessage, appState := Error\<rparr>)
      | Pending \<Rightarrow> s)"

text \<open>
  \<open>handleChangeApiKey\<close> awaits the key dialog and then the presence check. Its
  argument at the click tells whether \<open>window.aistudio.openSelectKey\<close> is there. What
  it tests after the two awaits are the \<open>isQuotaError\<close>, \<open>processedImageSrc\<close> and
  \<open>frameSrc\<close> of its closure, that is, of the state at the click; a rejection of
  either await is not caught and changes nothing.
\<close>

definition handleChangeApiKey_begin :: "bool \<Rightarrow> App \<Rightarrow> App \<times> request option" where
  "handleChangeApiKey_begin aistudio s =
     (if aistudio
      then (s, Some (SelectKey (isQuotaError s) (processedImageSrc s) (frameSrc s)))
      else (s, None))"

definition handleChangeApiKey_settle ::
  "bool \<Rightarrow> string option \<Rightarrow> string option \<Rightarrow> bool outcome \<Rightarrow> App \<Rightarrow> App" where
  "handleChangeApiKey_settle wasQuotaError hadImage hadFrame r s =
     (case r of
        Resolved hasKey \<Rightarrow>
          (let s1 = s\<lparr>isApiKeySelected := Some hasKey\<rparr> in
           if hasKey \<and> wasQuotaError then
             (let s2 = s1\<lparr>isQuotaError := False, error := None\<rparr> in
              if truthy hadImage then s2\<lparr>appState := Complete\<rparr>
              else if truthy hadFrame then s2\<lparr>appState := Video_loaded\<rparr>
              else s2)
           else s1)
      | Rejected e \<Rightarrow> s
      | Pending \<Rightarrow> s)"

definition handleReset :: "App \<Rightarrow> App" where
  "handleReset s =
     s\<lparr>appState := Idle, videoFile := None, frameSrc := None, selection := None,
       processedImageSrc := None, processedVideoUrl := None, error := None,
       isQuotaError := False, progress := 0\<rparr>"

text \<open>
  The progress effect has the dependency list \<open>[appState]\<close>: it runs after every
  render in which \<open>appState\<close> differs from the render before. In \<open>processing\<close> it sets
  the progress to 0 and starts four timers, otherwise it sets the progress to 0; its
  clean-up cancels the timers. \<open>rerender before after\<close> is the state once the effects of
  the render of \<open>after\<close> have run, whether the updates of a handler are rendered
  together or one by one. A timer that fires is \<open>progressTimer\<close>; the timers live
  only while the state is \<open>processing\<close>, and any of the four values may arrive.
\<close>

definition progressEffect :: "App \<Rightarrow> App" where
  "progressEffect s = (if appState s = Processing then s\<lparr>progress := 0\<rparr> else s\<lparr>progress := 0\<rparr>)"

definition rerender :: "App \<Rightarrow> App \<Rightarrow> App" where
  "rerender before after =
     (if appState after \<noteq> appState before then progressEffect after else after)"

definition timerValues :: "nat list" where
  "timerValues = [15, 40, 75, 90]"

definition progressTimer :: "nat \<Rightarrow> App \<Rightarrow> App" where
  "progressTimer v s =
     (if appState s = Processing \<and> v \<in> set timerValues then s\<lparr>progress := v\<rparr> else s)"

subsection \<open>What is on the screen\<close>

datatype view =
    FileUploaderView
  | FrameSelectorView string "Selection option"
  | LoaderView string "nat option"
  | ResultDisplayView string string "string option" "bool option"
  | QuotaErrorPanel
  | GenericErrorPanel "string option"
  | NoView

definition renderContent :: "App \<Rightarrow> view" where
  "renderContent s =
     (case appState s of
        Idle \<Rightarrow> FileUploaderView
      | Video_loaded \<Rightarrow>
          (case frameSrc s of
             Some src \<Rightarrow> if src \<noteq> [] then FrameSelectorView src (selection s) else NoView
           | None \<Rightarrow> NoView)
      | Processing \<Rightarrow>
          LoaderView ''Analyzing image and removing object with AI...'' (Some (progress s))
      | Generating_video \<Rightarrow> LoaderView ''Generating video from your edited frame...'' None
      | Complete \<Rightarrow>
          (case (frameSrc s, processedImageSrc s) of
             (Some src, Some img) \<Rightarrow>
               if src \<noteq> [] \<and> img \<noteq> []
               then ResultDisplayView src img None (isApiKeySelected s) else NoView
           | _ \<Rightarrow> NoView)
      | Video_complete \<Rightarrow>
          (case (frameSrc s, processedImageSrc s, processedVideoUrl s) of
             (Some src, Some img, Some url) \<Rightarrow>
               if src \<noteq> [] \<and> img \<noteq> [] \<and> url \<noteq> []
               then ResultDisplayView src img (Some url) (isApiKeySelected s) else NoView
           | _ \<Rightarrow> NoView)
      | Error \<Rightarrow> if isQuotaError s then QuotaErrorPanel else GenericErrorPanel (error s))"

text \<open>
  The controls a view offers. The button of the frame selector is disabled without a
  selection and for a selection less than 5 pixels wide or high; the result display
  offers video generation only before a video exists and with a credential selected;
  the file uploader passes on only files of a video type.
\<close>

definition removeButtonDisabled :: "Selection option \<Rightarrow> bool" where
  "removeButtonDisabled sel =
     (case sel of None \<Rightarrow> True | Some r \<Rightarrow> width r < 5 \<or> height r < 5)"

definition removeOffered :: "App \<Rightarrow> bool" where
  "removeOffered s =
     (case renderContent s of
        FrameSelectorView src sel \<Rightarrow> \<not> removeButtonDisabled sel
      | _ \<Rightarrow> False)"

definition selectOffered :: "App \<Rightarrow> bool" where
  "selectOffered s = (case renderContent s of FrameSelectorView src sel \<Rightarrow> True | _ \<Rightarrow> False)"

definition generateOffered :: "App \<Rightarrow> bool" where
  "generateOffered s =
     (case renderContent s of
        ResultDisplayView src img url key \<Rightarrow> \<not> truthy url \<and> key = Some True
      | _ \<Rightarrow> False)"

definition resetOffered :: "App \<Rightarrow> bool" where
  "resetOffered s =
     (case renderContent s of
        ResultDisplayView src img url key \<Rightarrow> True
      | QuotaErrorPanel \<Rightarrow> True
      | GenericErrorPanel msg \<Rightarrow> True
      | _ \<Rightarrow> False)"

definition uploadOffered :: "App \<Rightarrow> File \<Rightarrow> bool" where
  "uploadOffered s file \<longleftrightarrow> renderContent s = FileUploaderView \<and> prefix ''video/'' (fileType file)"

subsection \<open>Events\<close>

text \<open>
  The state machine with the requests that are pending, oldest first. An event is a
  click that the current view offers, the settling of a pending request (named by its
  place in the list), the answer of the credential check at mount, or a timer; an event
  that the view does not offer, or that names no pending request of its kind, changes
  nothing. The header, with its credential button, is on every screen.
\<close>

record config =
  app :: App
  pending :: "request list"

datatype event =
    KeyCheckDone "bool option"
  | FileChosen File
  | ExtractSettled nat "string outcome"
  | SelectionDrawn Selection
  | RemoveClicked
  | InpaintSettled nat "nat \<Rightarrow> inpaint_attempt"
  | GenerateVideoClicked
  | AnimateSettled nat "nat \<Rightarrow> animate_attempt"
  | ResetClicked
  | ChangeKeyClicked bool
  | KeySettled nat "bool outcome"
  | TimerFired nat

definition commit :: "config \<Rightarrow> App \<Rightarrow> config" where
  "commit c s' = c\<lparr>app := rerender (app c) s'\<rparr>"

definition issue :: "request option \<Rightarrow> config \<Rightarrow> config" where
  "issue req c = (case req of None \<Rightarrow> c | Some r \<Rightarrow> c\<lparr>pending := pending c @ [r]\<rparr>)"

definition pendingAt :: "config \<Rightarrow> nat \<Rightarrow> request option" where
  "pendingAt c k = (if k < length (pending c) then Some (pending c ! k) else None)"

definition settle :: "nat \<Rightarrow> 'a outcome \<Rightarrow> ('a outcome \<Rightarrow> App \<Rightarrow> App) \<Rightarrow> config \<Rightarrow> config" where
  "settle k r handler c =
     (case r of
        Pending \<Rightarrow> c
      | _ \<Rightarrow> (commit c (handler r (app c)))
               \<lparr>pending := take k (pending c) @ drop (Suc k) (pending c)\<rparr>)"

definition step :: "event \<Rightarrow> config \<Rightarrow> config" where
  "step ev c =
     (let s = app c in
      case ev of
        KeyCheckDone aistudio \<Rightarrow> commit c (checkApiKey aistudio s)
      | FileChosen file \<Rightarrow>
          if uploadOffered s file
          then issue (Some (ExtractFrame file)) (commit c (handleFileSelect_begin file s))
          else c
      | ExtractSettled k r \<Rightarrow>
          (case pendingAt c k of
             Some (ExtractFrame file) \<Rightarrow> settle k r handleFileSelect_settle c
           | _ \<Rightarrow> c)
      | SelectionDrawn sel \<Rightarrow>
          if selectOffered s then commit c (s\<lparr>selection := Some sel\<rparr>) else c
      | RemoveClicked \<Rightarrow>
          if removeOffered s
          then (case handleRemoveLogo_begin s of (s', req) \<Rightarrow> issue req (commit c s'))
          else c
      | InpaintSettled k env \<Rightarrow>
          (case pendingAt c k of
             Some (Inpaint img sel) \<Rightarrow>
               settle k (removeObjectFromFrame env) handleRemoveLogo_settle c
           | _ \<Rightarrow> c)
      | GenerateVideoClicked \<Rightarrow>
          if generateOffered s
          then (case handleGenerateVideo_begin s of (s', req) \<Rightarrow> issue req (commit c s'))
          else c
      | AnimateSettled k env \<Rightarrow>
          (case pendingAt c k of
             Some (Animate img) \<Rightarrow>
               settle k (generateVideoFromFrame env) handleGenerateVideo_settle c
           | _ \<Rightarrow> c)
      | ResetClicked \<Rightarrow> if resetOffered s then commit c (handleReset s) else c
      | ChangeKeyClicked aistudio \<Rightarrow>
          (case handleChangeApiKey_begin aistudio s of (s', req) \<Rightarrow> issue req (commit c s'))
      | KeySettled k r \<Rightarrow>
          (case pendingAt c k of
             Some (SelectKey wasQuotaError hadImage hadFrame) \<Rightarrow>
               settle k r (handleChangeApiKey_settle wasQuotaError hadImage hadFrame) c
           | _ \<Rightarrow> c)
      | TimerFired v \<Rightarrow> commit c (progressTimer v s))"

definition initialConfig :: config where
  "initialConfig = \<lparr>app = initialApp, pending = []\<rparr>"

definition run :: "event list \<Rightarrow> config \<Rightarrow> config" where
  "run evs c = foldl (\<lambda>c ev. step ev c) c evs"

section \<open>Example inputs\<close>

text \<open>
  Runs of a wrapped operation: two quota errors and then a result, quota errors without
  end, a response without image data, a quota error that suggests a delay of 17
  seconds followed by one that suggests none, and quota errors that suggest a delay of
  40000000000000 seconds.
\<close>

definition quotaTwiceThenOk :: "nat \<Rightarrow> string outcome" where
  "quotaTwiceThenOk k =
     (if k < 2 then Rejected (JsError ''ApiError'' ''got status: 429 Too Many Requests'')
      else Resolved ''aGVsbG8='')"

definition quotaAlways :: "nat \<Rightarrow> string outcome" where
  "quotaAlways k = Rejected (NonError ''RESOURCE_EXHAUSTED'')"

definition noImageReturned :: "nat \<Rightarrow> string outcome" where
  "noImageReturned k = Rejected (JsError ''Error'' ''No image data returned from API.'')"

definition suggestedThenPlain :: "nat \<Rightarrow> string outcome" where
  "suggestedThenPlain k =
     (if k = 0 then Rejected (NonError (''429 '' @ retryDelayMarker @ ''17s''))
      else Rejected (NonError ''RESOURCE_EXHAUSTED''))"

definition hugeSuggestion :: "nat \<Rightarrow> string outcome" where
  "hugeSuggestion k =
     Rejected (NonError (''429 '' @ retryDelayMarker @ Number_toString 40000000000000 @ ''s''))"

text \<open>
  A 200 by 150 selection with its upper left corner at a given point, and a selection
  whose fields \<open>x\<close> and \<open>width\<close> are the doubles written \<open>540.3\<close> and \<open>199.4\<close>.
\<close>

definition box :: "rat \<Rightarrow> rat \<Rightarrow> Selection" where
  "box px py = \<lparr>x = px, y = py, width = 200, height = 150\<rparr>"

definition nearThird :: Selection where
  "nearThird =
     \<lparr>x = 2376264529949491 / 4398046511104, y = 465,
      width = 7015763794513101 / 35184372088832, height = 150\<rparr>"

text \<open>
  Sessions of the application: events from the initial configuration, and
  configurations met on the way.
\<close>

definition clip :: File where
  "clip = File ''clip.mp4'' ''video/mp4''"

definition frameUrl :: string where
  "frameUrl = ''data:image/jpeg;base64,AAAA''"

definition centredBox :: Selection where
  "centredBox = \<lparr>x = 860, y = 465, width = 200, height = 150\<rparr>"

definition uploadAndSelect :: "event list" where
  "uploadAndSelect =
     [KeyCheckDone (Some True), FileChosen clip, ExtractSettled 0 (Resolved frameUrl),
      SelectionDrawn centredBox, RemoveClicked]"

definition frameShown :: App where
  "frameShown = initialApp\<lparr>appState := Video_loaded, videoFile := Some clip,
     frameSrc := Some frameUrl, isApiKeySelected := Some True\<rparr>"

definition narrowBox :: Selection where
  "narrowBox = \<lparr>x = 10, y = 10, width = 4, height = 100\<rparr>"



definition inpaintSucceeds :: "event list" where
  "inpaintSucceeds = uploadAndSelect @ [InpaintSettled 0 (\<lambda>k. InlineData ''BBBB'')]"

definition generatingConfig :: config where
  "generatingConfig =
     \<lparr>app = frameShown\<lparr>appState := Generating_video, selection := Some centredBox,
              processedImageSrc := Some ''data:image/png;base64,BBBB''\<rparr>,
      pending = [Animate (Some ''BBBB'')]\<rparr>"

definition entityNotFound :: "nat \<Rightarrow> animate_attempt" where
  "entityNotFound k = DownloadNotOk ''Requested entity was not found.'' 404"

definition quotaThrice :: "nat \<Rightarrow> inpaint_attempt" where
  "quotaThrice k = GenerateContentRejected (NonError ''429'')"

definition inpaintQuotaFails :: "event list" where
  "inpaintQuotaFails = uploadAndSelect @ [InpaintSettled 0 quotaThrice]"


text \<open>
  A session in which the key dialog is opened twice after a quota error and the
  second answer arrives while a new removal is in flight: the machine is back in
  \<open>video_loaded\<close> with that removal still pending, a further removal is started, the
  first one succeeds, the user starts over, the second one fails for quota, and the
  key is changed once more.
\<close>

definition staleKeyChange :: "event list" where
  "staleKeyChange =
     inpaintQuotaFails @
     [ChangeKeyClicked True, ChangeKeyClicked True, KeySettled 0 (Resolved True),
      RemoveClicked, KeySettled 0 (Resolved True), RemoveClicked,
      InpaintSettled 0 (\<lambda>k. InlineData ''BBBB''), ResetClicked,
      InpaintSettled 0 quotaThrice, ChangeKeyClicked True, KeySettled 0 (Resolved True)]"

section \<open>Facts about strings\<close>

lemma str_includes_sublist: "str_includes s sub \<longleftrightarrow> sublist sub s"
  by (induction s) (auto simp: sublist_Cons_right)

lemma str_includes_middle: "str_includes (pre @ sub @ post) sub"
  by (simp add: str_includes_sublist)


section \<open>Facts about numbers\<close>

lemma bitLength_nonneg: "0 \<le> bitLength n"
proof (induction n rule: bitLength.induct)
  case (1 n)
  show ?case by (subst bitLength.simps) (use 1 in auto)
qed

lemma bitLength_pos: "1 \<le> n \<Longrightarrow> 1 \<le> bitLength n"
  using bitLength_nonneg [of "n div 2"] by (subst bitLength.simps) simp

lemma bitLength_bounds:
  "1 \<le> n \<Longrightarrow> (2::int) ^ nat (bitLength n - 1) \<le> n \<and> n < 2 ^ nat (bitLength n)"
proof (induction n rule: bitLength.induct)
  case (1 n)
  show ?case
  proof (cases "n = 1")
    case True
    have "bitLength 1 = 1"
      by (subst bitLength.simps, subst bitLength.simps) simp
    with True show ?thesis by simp
  next
    case False
    with "1.prems" have h: "1 \<le> n div 2" "\<not> n \<le> 0" by auto
    from "1.IH" [OF h(2) h(1)] have ih: "2 ^ nat (bitLength (n div 2) - 1) \<le> n div 2"
      "n div 2 < 2 ^ nat (bitLength (n div 2))" by auto
    have b: "bitLength n = 1 + bitLength (n div 2)"
      using h(2) by (subst bitLength.simps) simp
    have p: "1 \<le> bitLength (n div 2)" using h(1) by (rule bitLength_pos)
    have e1: "nat (bitLength n - 1) = Suc (nat (bitLength (n div 2) - 1))"
      using b p by simp
    have e2: "nat (bitLength n) = Suc (nat (bitLength (n div 2)))"
      using b p by simp
    have "2 * 2 ^ nat (bitLength (n div 2) - 1) \<le> 2 * (n div 2)" using ih(1) by simp
    also have "\<dots> \<le> n" by simp
    finally have lo: "2 ^ nat (bitLength n - 1) \<le> n" by (simp add: e1)
    have "n < 2 * (n div 2) + 2" by linarith
    also have "\<dots> \<le> 2 * 2 ^ nat (bitLength (n div 2))" using ih(2) by simp
    finally have hi: "n < 2 ^ nat (bitLength n)" by (simp add: e2)
    from lo hi show ?thesis by simp
  qed
qed


lemma binaryExponent_lower:
  assumes "0 < v"
  shows "2 powi binaryExponent v \<le> v"
proof (cases "1 \<le> v")
  case True
  then have n: "1 \<le> \<lfloor>v\<rfloor>" by simp
  from bitLength_bounds [OF n] have "(2::int) ^ nat (bitLength \<lfloor>v\<rfloor> - 1) \<le> \<lfloor>v\<rfloor>" by simp
  then have "(of_int ((2::int) ^ nat (bitLength \<lfloor>v\<rfloor> - 1)) :: rat) \<le> of_int \<lfloor>v\<rfloor>"
    by (simp only: of_int_le_iff)
  also have "\<dots> \<le> v" by simp
  finally have "(2::rat) ^ nat (bitLength \<lfloor>v\<rfloor> - 1) \<le> v" by simp
  moreover have "0 \<le> bitLength \<lfloor>v\<rfloor> - 1" using bitLength_pos [OF n] by simp
  ultimately show ?thesis
    using True by (simp add: binaryExponent_def power_int_def)
next
  case False
  let ?m = "\<lceil>1 / v\<rceil> - 1"
  from False assms have "1 < 1 / v" by simp
  then have "1 < \<lceil>1 / v\<rceil>" by (simp add: less_ceiling_iff)
  then have m: "1 \<le> ?m" by simp
  from bitLength_bounds [OF m] have "?m < 2 ^ nat (bitLength ?m)" by simp
  then have "\<lceil>1 / v\<rceil> \<le> 2 ^ nat (bitLength ?m)" by simp
  then have "1 / v \<le> of_int (2 ^ nat (bitLength ?m))"
    by (simp only: ceiling_le_iff)
  then have "1 / v \<le> 2 ^ nat (bitLength ?m)" by simp
  then have "1 \<le> 2 ^ nat (bitLength ?m) * v"
    using assms by (simp add: field_simps)
  then have "1 / 2 ^ nat (bitLength ?m) \<le> v"
    by (simp add: field_simps)
  moreover have "(2::rat) powi (- bitLength ?m) = 1 / 2 ^ nat (bitLength ?m)"
    using bitLength_nonneg [of ?m] by (simp add: power_int_def field_simps)
  ultimately show ?thesis
    using False by (simp add: binaryExponent_def)
qed

lemma roundHalfEven_of_int: "roundHalfEven (of_int k) = k"
  by (simp add: roundHalfEven_def)

lemma roundHalfEven_lower: "q - 1 / 2 \<le> of_int (roundHalfEven q)"
proof -
  have "q - of_int \<lfloor>q\<rfloor> < 1" by linarith
  then show ?thesis
    by (auto simp: roundHalfEven_def Let_def)
qed

lemma roundHalfEven_nonneg: "0 \<le> q \<Longrightarrow> 0 \<le> roundHalfEven q"
  by (auto simp: roundHalfEven_def Let_def)

lemma toDouble_not_NaN: "toDouble v \<noteq> NaN"
  by (simp add: toDouble_def Let_def)

lemma toDouble_pos_not_Neg: "0 < v \<Longrightarrow> toDouble v \<noteq> NegInfinity"
  by (simp add: toDouble_def Let_def)

lemma roundToQuantum_bounds:
  assumes "0 \<le> a"
  shows "0 \<le> roundToQuantum a q"
    and "roundToQuantum a q = 0 \<or> 2 powi q \<le> roundToQuantum a q"
    and "a - 2 powi q / 2 \<le> roundToQuantum a q"
proof -
  define z where "z = (2::rat) powi q"
  define m where "m = roundHalfEven (a / z)"
  have z: "0 < z" by (simp add: z_def)
  have r: "roundToQuantum a q = of_int m * z"
    by (simp add: roundToQuantum_def z_def m_def)
  have m0: "0 \<le> m"
    unfolding m_def using assms z by (intro roundHalfEven_nonneg) simp
  then show "0 \<le> roundToQuantum a q" using z by (simp add: r)
  show "roundToQuantum a q = 0 \<or> 2 powi q \<le> roundToQuantum a q"
  proof (cases "m = 0")
    case True
    then show ?thesis by (simp add: r)
  next
    case False
    with m0 have "(1::rat) \<le> of_int m" by simp
    then have "1 * z \<le> of_int m * z"
      using z by (intro mult_right_mono) simp_all
    then show ?thesis by (simp add: r z_def)
  qed
  have "a / z - 1 / 2 \<le> of_int m"
    unfolding m_def by (rule roundHalfEven_lower)
  then have "(a / z - 1 / 2) * z \<le> of_int m * z"
    using z by (intro mult_right_mono) simp_all
  moreover have "(a / z - 1 / 2) * z = a - z / 2"
    using z by (simp add: field_simps)
  ultimately have "a - z / 2 \<le> of_int m * z" by simp
  then show "a - 2 powi q / 2 \<le> roundToQuantum a q"
    unfolding r z_def .
qed

lemma quantumExponent_lower:
  assumes "0 < v" and "2 powi minQuantum \<le> v"
  shows "2 powi quantumExponent v \<le> v"
proof (cases "minQuantum \<le> binaryExponent v - 52")
  case True
  then have "quantumExponent v = binaryExponent v - 52" by (simp add: quantumExponent_def)
  then have "(2::rat) powi quantumExponent v \<le> 2 powi binaryExponent v"
    by (intro power_int_increasing) simp_all
  also have "\<dots> \<le> v" using assms(1) by (rule binaryExponent_lower)
  finally show ?thesis .
next
  case False
  then have "quantumExponent v = minQuantum" by (simp add: quantumExponent_def)
  with assms(2) show ?thesis by simp
qed

lemma toDouble_pos_Finite:
  assumes "0 < v" and "toDouble v = Finite t"
  shows "0 \<le> t" and "t = 0 \<or> 2 powi minQuantum \<le> t"
    and "2 powi minQuantum \<le> v \<Longrightarrow> v / 2 \<le> t"
proof -
  define q where "q = quantumExponent v"
  from assms have t: "t = roundToQuantum v q"
    by (auto simp: toDouble_def Let_def q_def split: if_splits)
  have v0: "0 \<le> v" using assms(1) by simp
  show "0 \<le> t" unfolding t using v0 by (rule roundToQuantum_bounds)
  have "(2::rat) powi minQuantum \<le> 2 powi q"
    by (intro power_int_increasing) (simp_all add: q_def quantumExponent_def)
  with roundToQuantum_bounds(2) [OF v0, of q]
  show "t = 0 \<or> 2 powi minQuantum \<le> t"
    unfolding t by (auto intro: order_trans)
  assume big: "2 powi minQuantum \<le> v"
  have "2 powi q \<le> v"
    unfolding q_def using assms(1) big by (rule quantumExponent_lower)
  with roundToQuantum_bounds(3) [OF v0, of q] show "v / 2 \<le> t"
    unfolding t by simp
qed

lemma toDouble_twice:
  assumes "0 < v"
  shows "\<not> n_less (n_mul (toDouble v) (Finite 2)) (toDouble v)"
proof (cases "toDouble v")
  case (Finite t)
  note f = toDouble_pos_Finite [OF assms Finite]
  show ?thesis
  proof (cases "t = 0")
    case True
    with Finite show ?thesis by (simp add: toDouble_def)
  next
    case False
    with f have t: "0 < t" "2 powi minQuantum \<le> t" by auto
    then have big: "2 powi minQuantum \<le> t * 2" by simp
    have pos: "0 < t * 2" using t by simp
    show ?thesis
    proof (cases "toDouble (t * 2)")
      case u: (Finite u)
      from toDouble_pos_Finite(3) [OF pos u big] have "t \<le> u" by simp
      with Finite u show ?thesis by simp
    next
      case PosInfinity
      with Finite show ?thesis by simp
    next
      case NegInfinity
      with toDouble_pos_not_Neg [OF pos] show ?thesis by simp
    next
      case NaN
      with toDouble_not_NaN show ?thesis by simp
    qed
  qed
next
  case PosInfinity
  then show ?thesis by simp
next
  case NegInfinity
  with toDouble_pos_not_Neg [OF assms] show ?thesis by simp
next
  case NaN
  with toDouble_not_NaN show ?thesis by simp
qed

lemma n_less_trans: "n_less a b \<Longrightarrow> n_less b c \<Longrightarrow> n_less a c"
  by (cases a; cases b; cases c) simp_all

lemma toDouble_exact:
  assumes "n < 2 ^ 53"
  shows "toDouble (of_nat n) = Finite (of_nat n)"
proof (cases "n = 0")
  case True
  then show ?thesis by (simp add: toDouble_def)
next
  case False
  let ?v = "of_nat n :: rat"
  have v1: "1 \<le> ?v" using False by simp
  have n1: "1 \<le> int n" using False by simp
  define e where "e = binaryExponent ?v"
  have e: "e = bitLength (int n) - 1"
    using v1 by (simp add: e_def binaryExponent_def)
  have e0: "0 \<le> e" using bitLength_pos [OF n1] by (simp add: e)
  from bitLength_bounds [OF n1] have "(2::int) ^ nat e \<le> int n" by (simp add: e)
  also have "\<dots> < 2 ^ 53"
  proof -
    from assms have "int n < int (2 ^ 53)" by (simp only: of_nat_less_iff)
    then show ?thesis by (simp only: of_nat_power of_nat_numeral)
  qed
  finally have "(2::int) ^ nat e < 2 ^ 53" .
  then have "nat e < 53" by (rule power_less_imp_less_exp [rotated]) simp
  then have e52: "e \<le> 52" by simp
  define k where "k = nat (52 - e)"
  have q: "quantumExponent ?v = - int k"
    using e0 e52 by (simp add: quantumExponent_def e_def [symmetric] k_def minQuantum_def)
  have p: "(2::rat) powi (- int k) = 1 / 2 ^ k"
    by (simp add: power_int_def field_simps)
  have "?v / (1 / 2 ^ k) = of_int (int n * 2 ^ k)"
    by simp
  then have "roundHalfEven (?v / (1 / 2 ^ k)) = int n * 2 ^ k"
    by (simp only: roundHalfEven_of_int)
  then have r: "roundToQuantum ?v (- int k) = ?v"
    by (simp add: roundToQuantum_def p)
  have "?v < 2 ^ 53"
  proof -
    from assms have "?v < of_nat (2 ^ 53)" by (simp only: of_nat_less_iff)
    then show ?thesis by (simp only: of_nat_power of_nat_numeral)
  qed
  also have "\<dots> \<le> overflowThreshold"
    unfolding overflowThreshold_def by (intro power_increasing) simp_all
  finally have small: "\<not> overflowThreshold \<le> ?v" by simp
  have "\<bar>?v\<bar> = ?v" by simp
  then show ?thesis
    using False small by (simp add: toDouble_def Let_def q r)
qed


section \<open>Facts about the retry controller\<close>

lemma withRetry_loop_attempts:
  "i \<le> MAX_RETRIES \<Longrightarrow> attempts (withRetry_loop apiCall serviceName i waited) \<le> MAX_RETRIES"
proof (induction apiCall serviceName i waited rule: withRetry_loop.induct)
  case (1 apiCall serviceName i waited)
  show ?case
  proof (cases "i < MAX_RETRIES")
    case False
    with "1.prems" show ?thesis
      by (subst withRetry_loop.simps) simp
  next
    case True
    then have le: "i + 1 \<le> MAX_RETRIES" by simp
    show ?thesis
    proof (cases "apiCall i")
      case (Resolved v)
      with True show ?thesis
        by (subst withRetry_loop.simps) simp
    next
      case Pending
      with True show ?thesis
        by (subst withRetry_loop.simps) simp
    next
      case (Rejected err)
      show ?thesis
      proof (cases "isQuotaErrorString (String_of err)")
        case False
        with True Rejected show ?thesis
          by (subst withRetry_loop.simps) simp
      next
        case quota: True
        show ?thesis
        proof (cases "i < MAX_RETRIES - 1")
          case last: False
          have "\<not> \<not> isQuotaErrorString (String_of err)" using quota by simp
          from "1.IH"(2) [OF True Rejected this last le] quota True Rejected last show ?thesis
            by (subst withRetry_loop.simps) simp
        next
          case more: True
          have "\<not> \<not> isQuotaErrorString (String_of err)" using quota by simp
          from "1.IH"(1) [OF True Rejected this more le] quota True Rejected more show ?thesis
            by (subst withRetry_loop.simps) simp
        qed
      qed
    qed
  qed
qed

lemma withRetry_loop_quota:
  "i < MAX_RETRIES \<Longrightarrow> apiCall i = Rejected err \<Longrightarrow> isQuotaErrorString (String_of err) \<Longrightarrow>
   j = i + 1 \<Longrightarrow>
   withRetry_loop apiCall serviceName i waited =
   withRetry_loop apiCall serviceName j
     (if i < MAX_RETRIES - 1 then waited @ [computeDelay i (String_of err)] else waited)"
  by (subst withRetry_loop.simps) simp

lemma withRetry_loop_settle:
  "i < MAX_RETRIES \<Longrightarrow> apiCall i = Resolved v \<Longrightarrow>
   withRetry_loop apiCall serviceName i waited =
   \<lparr>settled = Resolved v, delays = waited, attempts = i + 1\<rparr>"
  by (subst withRetry_loop.simps) simp

lemma withRetry_loop_nonquota:
  "i < MAX_RETRIES \<Longrightarrow> apiCall i = Rejected err \<Longrightarrow> \<not> isQuotaErrorString (String_of err) \<Longrightarrow>
   withRetry_loop apiCall serviceName i waited =
   \<lparr>settled = Rejected err, delays = waited, attempts = i + 1\<rparr>"
  by (subst withRetry_loop.simps) simp

lemma withRetry_loop_exhausted:
  "\<not> i < MAX_RETRIES \<Longrightarrow>
   withRetry_loop apiCall serviceName i waited =
   \<lparr>settled = Rejected (JsError ''Error'' (quotaExceededMessage serviceName)),
     delays = waited, attempts = i\<rparr>"
  by (subst withRetry_loop.simps) simp

lemma withRetry_loop_delays_prefix:
  "prefix waited (delays (withRetry_loop apiCall serviceName i waited))"
proof (induction apiCall serviceName i waited rule: withRetry_loop.induct)
  case (1 apiCall serviceName i waited)
  show ?case
    apply (subst withRetry_loop.simps)
    using 1 by (auto split: outcome.splits dest: append_prefixD)
qed

lemma withRetry_two_quota:
  assumes "apiCall 0 = Rejected e1" "isQuotaErrorString (String_of e1)"
    and "apiCall 1 = Rejected e2" "isQuotaErrorString (String_of e2)"
  shows "withRetry apiCall serviceName =
         withRetry_loop apiCall serviceName 2
           [computeDelay 0 (String_of e1), computeDelay 1 (String_of e2)]"
proof -
  have "withRetry apiCall serviceName =
        withRetry_loop apiCall serviceName 1 [computeDelay 0 (String_of e1)]"
    unfolding withRetry_def using assms(1,2)
    by (subst withRetry_loop_quota [of 0 apiCall e1 1]) (simp_all add: MAX_RETRIES_def)
  also have "\<dots> = withRetry_loop apiCall serviceName 2
           [computeDelay 0 (String_of e1), computeDelay 1 (String_of e2)]"
    using assms(3,4)
    by (subst withRetry_loop_quota [of 1 apiCall e2 2]) (simp_all add: MAX_RETRIES_def)
  finally show ?thesis .
qed

text \<open>
  C1. An operation wrapped by \<open>withRetry\<close> is attempted at most 3 times. If
  attempts 1 and 2 fail with quota errors and attempt 3 succeeds, the success value is
  returned and exactly 2 delays are performed. If all 3 attempts fail with quota errors,
  the quota-exceeded error is thrown, and its message contains the service name.
\<close>

theorem withRetry_three_attempts:
  "attempts (withRetry apiCall serviceName) \<le> 3
   \<and> (apiCall 0 = Rejected e1 \<and> isQuotaErrorString (String_of e1)
        \<and> apiCall 1 = Rejected e2 \<and> isQuotaErrorString (String_of e2)
        \<and> apiCall 2 = Resolved v
      \<longrightarrow> settled (withRetry apiCall serviceName) = Resolved v
          \<and> length (delays (withRetry apiCall serviceName)) = 2
          \<and> attempts (withRetry apiCall serviceName) = 3)
   \<and> (apiCall 0 = Rejected e1 \<and> isQuotaErrorString (String_of e1)
        \<and> apiCall 1 = Rejected e2 \<and> isQuotaErrorString (String_of e2)
        \<and> apiCall 2 = Rejected e3 \<and> isQuotaErrorString (String_of e3)
      \<longrightarrow> settled (withRetry apiCall serviceName)
            = Rejected (JsError ''Error'' (quotaExceededMessage serviceName))
          \<and> str_includes (quotaExceededMessage serviceName) serviceName
          \<and> length (delays (withRetry apiCall serviceName)) = 2
          \<and> attempts (withRetry apiCall serviceName) = 3)"
proof (intro conjI impI)
  show "attempts (withRetry apiCall serviceName) \<le> 3"
    using withRetry_loop_attempts [of 0 apiCall serviceName "[]"]
    by (simp add: withRetry_def MAX_RETRIES_def)
next
  assume a: "apiCall 0 = Rejected e1 \<and> isQuotaErrorString (String_of e1)
        \<and> apiCall 1 = Rejected e2 \<and> isQuotaErrorString (String_of e2)
        \<and> apiCall 2 = Resolved v"
  have "withRetry apiCall serviceName =
        withRetry_loop apiCall serviceName 2
           [computeDelay 0 (String_of e1), computeDelay 1 (String_of e2)]"
    using a by (intro withRetry_two_quota) simp_all
  also have "\<dots> = \<lparr>settled = Resolved v,
          delays = [computeDelay 0 (String_of e1), computeDelay 1 (String_of e2)],
          attempts = 3\<rparr>"
    using a by (subst withRetry_loop_settle [of 2 apiCall v]) (simp_all add: MAX_RETRIES_def)
  finally show "settled (withRetry apiCall serviceName) = Resolved v"
    and "length (delays (withRetry apiCall serviceName)) = 2"
    and "attempts (withRetry apiCall serviceName) = 3"
    by simp_all
next
  assume a: "apiCall 0 = Rejected e1 \<and> isQuotaErrorString (String_of e1)
        \<and> apiCall 1 = Rejected e2 \<and> isQuotaErrorString (String_of e2)
        \<and> apiCall 2 = Rejected e3 \<and> isQuotaErrorString (String_of e3)"
  have "withRetry apiCall serviceName =
        withRetry_loop apiCall serviceName 2
           [computeDelay 0 (String_of e1), computeDelay 1 (String_of e2)]"
    using a by (intro withRetry_two_quota) simp_all
  also have "\<dots> = withRetry_loop apiCall serviceName 3
           [computeDelay 0 (String_of e1), computeDelay 1 (String_of e2)]"
    using a by (subst withRetry_loop_quota [of 2 apiCall e3 3]) (simp_all add: MAX_RETRIES_def)
  also have "\<dots> = \<lparr>settled = Rejected (JsError ''Error'' (quotaExceededMessage serviceName)),
          delays = [computeDelay 0 (String_of e1), computeDelay 1 (String_of e2)],
          attempts = 3\<rparr>"
    by (subst withRetry_loop_exhausted) (simp_all add: MAX_RETRIES_def)
  finally show "settled (withRetry apiCall serviceName)
            = Rejected (JsError ''Error'' (quotaExceededMessage serviceName))"
    and "length (delays (withRetry apiCall serviceName)) = 2"
    and "attempts (withRetry apiCall serviceName) = 3"
    by simp_all
  show "str_includes (quotaExceededMessage serviceName) serviceName"
    unfolding quotaExceededMessage_def by (rule str_includes_middle)
qed

theorem withRetry_three_attempts_witness:
  "settled (withRetry quotaTwiceThenOk ''image processing'') = Resolved ''aGVsbG8=''
   \<and> length (delays (withRetry quotaTwiceThenOk ''image processing'')) = 2
   \<and> attempts (withRetry quotaTwiceThenOk ''image processing'') = 3
   \<and> settled (withRetry quotaAlways ''video generation'')
       = Rejected (JsError ''Error'' (quotaExceededMessage ''video generation''))
   \<and> str_includes (quotaExceededMessage ''video generation'') ''video generation''
   \<and> attempts (withRetry quotaAlways ''video generation'') = 3"
proof -
  have q1: "isQuotaErrorString (String_of (JsError ''ApiError'' ''got status: 429 Too Many Requests''))"
    by (simp add: isQuotaErrorString_def)
  have q2: "isQuotaErrorString (String_of (NonError ''RESOURCE_EXHAUSTED''))"
    by (simp add: isQuotaErrorString_def)
  show ?thesis
    using withRetry_three_attempts [of quotaTwiceThenOk "''image processing''"
        "JsError ''ApiError'' ''got status: 429 Too Many Requests''"
        "JsError ''ApiError'' ''got status: 429 Too Many Requests''" "''aGVsbG8=''"]
      withRetry_three_attempts [of quotaAlways "''video generation''"
        "NonError ''RESOURCE_EXHAUSTED''" "NonError ''RESOURCE_EXHAUSTED''" _
        "NonError ''RESOURCE_EXHAUSTED''"]
      q1 q2
    by (simp add: quotaTwiceThenOk_def quotaAlways_def)
qed

lemma withRetry_loop_reach:
  "i \<le> k \<Longrightarrow> k < MAX_RETRIES \<Longrightarrow>
   \<forall>j. i \<le> j \<and> j < k \<longrightarrow> (\<exists>e. apiCall j = Rejected e \<and> isQuotaErrorString (String_of e)) \<Longrightarrow>
   \<exists>more. length more = k - i \<and>
     withRetry_loop apiCall serviceName i waited =
     withRetry_loop apiCall serviceName k (waited @ more)"
proof (induction "k - i" arbitrary: i waited)
  case 0
  then have "i = k" by simp
  then show ?case by simp
next
  case (Suc n)
  then have lt: "i < k" by simp
  with Suc.prems obtain e where e: "apiCall i = Rejected e" "isQuotaErrorString (String_of e)"
    by blast
  from lt Suc.prems have b: "i < MAX_RETRIES" "i < MAX_RETRIES - 1" by simp_all
  have step: "withRetry_loop apiCall serviceName i waited =
              withRetry_loop apiCall serviceName (i + 1) (waited @ [computeDelay i (String_of e)])"
    using withRetry_loop_quota [of i apiCall e "i + 1" serviceName waited] b e by simp
  have "n = k - (i + 1)" using Suc.hyps(2) by simp
  moreover have "i + 1 \<le> k" using lt by simp
  moreover have "\<forall>j. i + 1 \<le> j \<and> j < k \<longrightarrow>
      (\<exists>e. apiCall j = Rejected e \<and> isQuotaErrorString (String_of e))"
    using Suc.prems(3) by simp
  ultimately obtain more where more: "length more = k - (i + 1)"
    "withRetry_loop apiCall serviceName (i + 1) (waited @ [computeDelay i (String_of e)]) =
     withRetry_loop apiCall serviceName k ((waited @ [computeDelay i (String_of e)]) @ more)"
    using Suc.hyps(1) [of "i + 1" "waited @ [computeDelay i (String_of e)]"] Suc.prems(2)
    by blast
  show ?case
  proof (intro exI conjI)
    show "length (computeDelay i (String_of e) # more) = k - i"
      using more(1) lt by simp
    show "withRetry_loop apiCall serviceName i waited =
          withRetry_loop apiCall serviceName k (waited @ computeDelay i (String_of e) # more)"
      using step more(2) by simp
  qed
qed

lemma withRetry_reach:
  assumes "k < MAX_RETRIES"
    and "\<forall>j<k. \<exists>e. apiCall j = Rejected e \<and> isQuotaErrorString (String_of e)"
  shows "\<exists>waited. length waited = k \<and>
     withRetry apiCall serviceName = withRetry_loop apiCall serviceName k waited"
  using withRetry_loop_reach [of 0 k apiCall serviceName "[]"] assms
  by (simp add: withRetry_def)

text \<open>
  C2. If an attempt fails with an error that is not a quota error (its text contains
  neither \<open>429\<close> nor \<open>RESOURCE_EXHAUSTED\<close>), that error is propagated unchanged
  and at once: the failing attempt is the last one, and no delay follows it. Attempt
  \<open>k\<close> is reached only after \<open>k\<close> quota errors, each followed by one delay;
  for \<open>k = 0\<close> there is one attempt and no delay at all.
\<close>

theorem withRetry_non_quota_propagates:
  assumes "k < MAX_RETRIES"
    and "\<forall>j<k. \<exists>e. apiCall j = Rejected e \<and> isQuotaErrorString (String_of e)"
    and "apiCall k = Rejected err"
    and "\<not> isQuotaErrorString (String_of err)"
  shows "settled (withRetry apiCall serviceName) = Rejected err
       \<and> attempts (withRetry apiCall serviceName) = k + 1
       \<and> length (delays (withRetry apiCall serviceName)) = k"
proof -
  from withRetry_reach [OF assms(1,2)] obtain waited where w: "length waited = k"
    "withRetry apiCall serviceName = withRetry_loop apiCall serviceName k waited"
    by blast
  have "withRetry_loop apiCall serviceName k waited =
        \<lparr>settled = Rejected err, delays = waited, attempts = k + 1\<rparr>"
    using assms(1,3,4) by (rule withRetry_loop_nonquota [of k apiCall err serviceName waited])
  with w show ?thesis by simp
qed

theorem withRetry_non_quota_propagates_witness:
  "settled (withRetry noImageReturned ''image processing'')
     = Rejected (JsError ''Error'' ''No image data returned from API.'')
   \<and> attempts (withRetry noImageReturned ''image processing'') = 1
   \<and> delays (withRetry noImageReturned ''image processing'') = []"
proof -
  have nq: "\<not> isQuotaErrorString (String_of (JsError ''Error'' ''No image data returned from API.''))"
    by (simp add: isQuotaErrorString_def)
  show ?thesis
    using withRetry_non_quota_propagates [of 0 noImageReturned
        "JsError ''Error'' ''No image data returned from API.''" "''image processing''"] nq
    by (simp add: MAX_RETRIES_def noImageReturned_def)
qed

section \<open>Facts about the retry delay\<close>

lemma of_char_digitChar: "d < 10 \<Longrightarrow> (of_char (digitChar d) :: nat) = 48 + d"
  by (simp add: digitChar_def)

lemma isDigit_digitChar: "d < 10 \<Longrightarrow> isDigit (digitChar d)"
  by (simp add: isDigit_def of_char_digitChar)

lemma digitValue_digitChar: "d < 10 \<Longrightarrow> digitValue (digitChar d) = d"
  by (simp add: digitValue_def of_char_digitChar)

lemma decimalValue_snoc: "decimalValue (ds @ [c]) = 10 * decimalValue ds + digitValue c"
  by (simp add: decimalValue_def)

lemma Number_toString_digits: "\<forall>c \<in> set (Number_toString n). isDigit c"
  by (induction n rule: Number_toString.induct)
     (subst Number_toString.simps, simp add: isDigit_digitChar)

lemma Number_toString_nonempty: "Number_toString n \<noteq> []"
  by (subst Number_toString.simps) simp

lemma decimalValue_Number_toString: "decimalValue (Number_toString n) = n"
proof (induction n rule: Number_toString.induct)
  case (1 n)
  show ?case
  proof (cases "n < 10")
    case True
    then show ?thesis
      by (subst Number_toString.simps) (simp add: decimalValue_def digitValue_digitChar)
  next
    case False
    with 1 show ?thesis
      by (subst Number_toString.simps) (simp add: decimalValue_snoc digitValue_digitChar)
  qed
qed

lemma takeWhile_digits:
  "\<forall>c \<in> set ds. isDigit c \<Longrightarrow> rest = [] \<or> \<not> isDigit (hd rest) \<Longrightarrow>
   takeWhile isDigit (ds @ rest) = ds"
  by (cases rest) simp_all

lemma matchAt_field:
  assumes "ds \<noteq> []" "\<forall>c \<in> set ds. isDigit c" "rest = [] \<or> \<not> isDigit (hd rest)"
  shows "matchAt (retryDelayMarker @ ds @ rest) = Some ds"
proof -
  have "takeWhile isDigit (ds @ rest) = ds"
    using assms(2,3) by (rule takeWhile_digits)
  with assms(1) show ?thesis by (simp add: matchAt_def)
qed

lemma matchAt_SomeD:
  assumes "matchAt s = Some ds"
  shows "\<exists>d. isDigit d \<and> prefix (retryDelayMarker @ [d]) s"
proof -
  from assms have p: "prefix retryDelayMarker s"
    and t: "takeWhile isDigit (drop (length retryDelayMarker) s) \<noteq> []"
    by (auto simp: matchAt_def Let_def split: if_splits)
  from p obtain r where s: "s = retryDelayMarker @ r" by (auto simp: prefix_def)
  with t have "takeWhile isDigit r \<noteq> []" by simp
  then obtain d r' where r: "r = d # r'" "isDigit d"
    by (cases r) (auto split: if_splits)
  with s show ?thesis by auto
qed

lemma matchRetryDelay_absent:
  "\<not> (\<exists>d. isDigit d \<and> str_includes s (retryDelayMarker @ [d])) \<Longrightarrow> matchRetryDelay s = None"
proof (induction s)
  case Nil
  show ?case by simp
next
  case (Cons c cs)
  have "matchAt (c # cs) = None"
  proof (cases "matchAt (c # cs)")
    case (Some ds)
    from matchAt_SomeD [OF this] Cons.prems show ?thesis by auto
  qed simp
  moreover have "matchRetryDelay cs = None"
    using Cons by auto
  ultimately show ?case by simp
qed

lemma matchRetryDelay_skip:
  "\<not> (\<exists>d. isDigit d \<and> str_includes (pre @ retryDelayMarker) (retryDelayMarker @ [d])) \<Longrightarrow>
   matchRetryDelay (pre @ retryDelayMarker @ t) = matchRetryDelay (retryDelayMarker @ t)"
proof (induction pre)
  case Nil
  show ?case by simp
next
  case (Cons c pre)
  have "matchAt (c # pre @ retryDelayMarker @ t) = None"
  proof (cases "matchAt (c # pre @ retryDelayMarker @ t)")
    case (Some ds)
    from matchAt_SomeD [OF this] obtain d where d: "isDigit d"
      "prefix (retryDelayMarker @ [d]) ((c # pre @ retryDelayMarker) @ t)"
      by auto
    have "length (retryDelayMarker @ [d]) \<le> length (c # pre @ retryDelayMarker)"
      by simp
    with d(2) have "prefix (retryDelayMarker @ [d]) (c # pre @ retryDelayMarker)"
      by (metis prefix_length_prefix prefixI)
    with d(1) Cons.prems show ?thesis by auto
  qed simp
  moreover have "matchRetryDelay (pre @ retryDelayMarker @ t) = matchRetryDelay (retryDelayMarker @ t)"
    using Cons by auto
  ultimately show ?case by simp
qed

lemma matchRetryDelay_here:
  assumes "matchAt (retryDelayMarker @ t) = Some ds"
  shows "matchRetryDelay (retryDelayMarker @ t) = Some ds"
proof -
  obtain c cs where "retryDelayMarker @ t = c # cs"
    by (cases "retryDelayMarker @ t") (simp_all add: retryDelayMarker_def)
  with assms show ?thesis by simp
qed

lemma matchRetryDelay_field:
  assumes "errorString = pre @ retryDelayMarker @ Number_toString N @ rest"
    and "rest = [] \<or> \<not> isDigit (hd rest)"
    and "\<not> (\<exists>d. isDigit d \<and> str_includes (pre @ retryDelayMarker) (retryDelayMarker @ [d]))"
  shows "matchRetryDelay errorString = Some (Number_toString N)"
proof -
  have "matchAt (retryDelayMarker @ Number_toString N @ rest) = Some (Number_toString N)"
    using assms(2) by (intro matchAt_field Number_toString_nonempty Number_toString_digits)
  then show ?thesis
    using matchRetryDelay_skip [OF assms(3)] matchRetryDelay_here by (simp add: assms(1))
qed

lemma computeDelay_field:
  assumes "errorString = pre @ retryDelayMarker @ Number_toString N @ rest"
    and "rest = [] \<or> \<not> isDigit (hd rest)"
    and "\<not> (\<exists>d. isDigit d \<and> str_includes (pre @ retryDelayMarker) (retryDelayMarker @ [d]))"
  shows "computeDelay i errorString =
         n_add (n_mul (toDouble (of_nat N)) (Finite 1000)) (Finite 500)"
  using matchRetryDelay_field [OF assms]
  by (simp add: computeDelay_def parseInt_def decimalValue_Number_toString)

lemma timer_delay_exact: "n \<le> maxTimerDelay \<Longrightarrow> toDouble (of_nat n) = Finite (of_nat n)"
  by (rule toDouble_exact) (simp add: maxTimerDelay_def)

lemma computeDelay_suggested:
  assumes "errorString = pre @ retryDelayMarker @ Number_toString N @ rest"
    and "rest = [] \<or> \<not> isDigit (hd rest)"
    and "\<not> (\<exists>d. isDigit d \<and> str_includes (pre @ retryDelayMarker) (retryDelayMarker @ [d]))"
    and "N * 1000 + 500 \<le> maxTimerDelay"
  shows "computeDelay i errorString = Finite (of_nat (N * 1000 + 500))"
proof -
  from assms(4) have n: "N \<le> maxTimerDelay" and m: "N * 1000 \<le> maxTimerDelay"
    by simp_all
  have "n_mul (toDouble (of_nat N)) (Finite 1000) = toDouble (of_nat (N * 1000))"
    by (simp add: timer_delay_exact [OF n])
  also have "\<dots> = Finite (of_nat (N * 1000))"
    using m by (rule timer_delay_exact)
  finally have "n_add (n_mul (toDouble (of_nat N)) (Finite 1000)) (Finite 500) =
                toDouble (of_nat (N * 1000 + 500))"
    by simp
  also have "\<dots> = Finite (of_nat (N * 1000 + 500))"
    using assms(4) by (rule timer_delay_exact)
  finally show ?thesis
    by (simp only: computeDelay_field [OF assms(1-3)])
qed

lemma computeDelay_default:
  assumes "\<not> (\<exists>d. isDigit d \<and> str_includes errorString (retryDelayMarker @ [d]))"
    and "i < MAX_RETRIES - 1"
  shows "computeDelay i errorString = Finite (5000 * 2 ^ i)"
proof -
  from assms(2) have "i = 0 \<or> i = 1" by (auto simp: MAX_RETRIES_def)
  then have p: "(2::rat) ^ i = of_nat (2 ^ i)" and "(2::nat) ^ i < 2 ^ 53"
    and q: "5000 * (2::rat) ^ i = of_nat (5000 * 2 ^ i)" and "5000 * (2::nat) ^ i < 2 ^ 53"
    by auto
  then have "toDouble (2 ^ i) = Finite (2 ^ i)"
    and "toDouble (5000 * 2 ^ i) = Finite (5000 * 2 ^ i)"
    using toDouble_exact [of "2 ^ i"] toDouble_exact [of "5000 * 2 ^ i"]
    by (simp_all only: p q)
  then show ?thesis
    using matchRetryDelay_absent [OF assms(1)] by (simp add: computeDelay_def)
qed

lemma withRetry_delay_at:
  assumes "i < MAX_RETRIES - 1"
    and "\<forall>j<i. \<exists>e. apiCall j = Rejected e \<and> isQuotaErrorString (String_of e)"
    and "apiCall i = Rejected err"
    and "isQuotaErrorString (String_of err)"
  shows "i < length (delays (withRetry apiCall serviceName))
       \<and> delays (withRetry apiCall serviceName) ! i = computeDelay i (String_of err)"
proof -
  from assms(1) have lt: "i < MAX_RETRIES" by simp
  from withRetry_reach [OF lt assms(2)] obtain waited where w: "length waited = i"
    "withRetry apiCall serviceName = withRetry_loop apiCall serviceName i waited"
    by blast
  have "withRetry_loop apiCall serviceName i waited =
        withRetry_loop apiCall serviceName (i + 1) (waited @ [computeDelay i (String_of err)])"
    using withRetry_loop_quota [of i apiCall err "i + 1" serviceName waited] lt assms by simp
  with w have "prefix (waited @ [computeDelay i (String_of err)])
                 (delays (withRetry apiCall serviceName))"
    by (simp add: withRetry_loop_delays_prefix)
  then obtain more where "delays (withRetry apiCall serviceName) =
      (waited @ [computeDelay i (String_of err)]) @ more"
    by (auto simp: prefix_def)
  with w(1) show ?thesis by (simp add: nth_append)
qed

lemma str_includes_butlast:
  assumes "str_includes u (m @ [d])"
  shows "str_includes (butlast u) m"
proof -
  from assms obtain ps ss where u: "u = ps @ (m @ [d]) @ ss"
    by (auto simp: str_includes_sublist sublist_def)
  show ?thesis
  proof (cases ss rule: rev_cases)
    case Nil
    with u have "butlast u = ps @ m @ []" by (simp add: butlast_append)
    then show ?thesis using str_includes_middle [of ps m "[]"] by simp
  next
    case (snoc ss' z)
    with u have "butlast u = ps @ m @ (d # ss')" by (simp add: butlast_append)
    then show ?thesis using str_includes_middle [of ps m "d # ss'"] by simp
  qed
qed

lemma no_field_without_marker:
  "\<not> str_includes (butlast u) retryDelayMarker \<Longrightarrow>
   \<not> (\<exists>d. isDigit d \<and> str_includes u (retryDelayMarker @ [d]))"
  using str_includes_butlast by blast

text \<open>
  C3, as stated, for a suggested delay of 40000000000000 seconds: the first attempt
  fails with a quota error whose text has the field, another attempt follows, and the
  delay handed to the timer is 40000000000000496 milliseconds, not
  \<open>40000000000000 * 1000 + 500\<close>: the product and the sum are rounded to doubles.
\<close>

theorem withRetry_delay_rounded:
  "0 < MAX_RETRIES - 1
   \<and> hugeSuggestion 0 =
       Rejected (NonError (''429 '' @ retryDelayMarker @ Number_toString 40000000000000 @ ''s''))
   \<and> isQuotaErrorString
       (String_of (NonError (''429 '' @ retryDelayMarker @ Number_toString 40000000000000 @ ''s'')))
   \<and> delays (withRetry hugeSuggestion ''video generation'') ! 0 = Finite 40000000000000496
   \<and> delays (withRetry hugeSuggestion ''video generation'') ! 0
       \<noteq> Finite (of_nat (40000000000000 * 1000 + 500))"
proof -
  let ?e = "NonError (''429 '' @ retryDelayMarker @ Number_toString 40000000000000 @ ''s'')"
  have q: "isQuotaErrorString (String_of ?e)"
    by (simp add: isQuotaErrorString_def)
  have first: "\<not> (\<exists>d. isDigit d \<and> str_includes (''429 '' @ retryDelayMarker) (retryDelayMarker @ [d]))"
    by (rule no_field_without_marker) (simp add: retryDelayMarker_def)
  have rest: "''s'' = [] \<or> \<not> isDigit (hd ''s'')"
    by (simp add: isDigit_def)
  have "delays (withRetry hugeSuggestion ''video generation'') ! 0 = computeDelay 0 (String_of ?e)"
    using withRetry_delay_at [of 0 hugeSuggestion ?e "''video generation''"] q
    by (simp add: MAX_RETRIES_def hugeSuggestion_def del: String_of.simps)
  also have "\<dots> = n_add (n_mul (toDouble (of_nat 40000000000000)) (Finite 1000)) (Finite 500)"
    using computeDelay_field [of "String_of ?e" "''429 ''" 40000000000000 "''s''" 0] first rest
    by simp
  also have "\<dots> = n_add (toDouble 40000000000000000) (Finite 500)"
    using toDouble_exact [of 40000000000000] by simp
  also have "toDouble 40000000000000000 = Finite 40000000000000000"
    by code_simp
  also have "n_add (Finite 40000000000000000) (Finite 500) = toDouble 40000000000000500"
    by simp
  also have "\<dots> = Finite 40000000000000496"
    by code_simp
  finally have d: "delays (withRetry hugeSuggestion ''video generation'') ! 0
                   = Finite 40000000000000496" .
  have h: "hugeSuggestion 0 = Rejected ?e"
    by (simp add: hugeSuggestion_def)
  have m: "0 < MAX_RETRIES - 1"
    by (simp add: MAX_RETRIES_def)
  from d h q m show ?thesis
    by simp
qed

text \<open>
  C3, amended. Let attempt \<open>i\<close> (counted from 0) fail with a quota error and be
  followed by another attempt (\<open>i < MAX_RETRIES - 1\<close>). If the error text has the field
  \<open>"retryDelay":"\<close> followed by the decimal digits of \<open>N\<close>, no such field with a
  number starts further left, and \<open>N * 1000 + 500\<close> is a delay that a timer waits, the
  delay before the next attempt is \<open>N * 1000 + 500\<close> milliseconds. If the text has no
  such field with a number, the delay is \<open>5000 * 2 ^ i\<close> milliseconds.
\<close>

theorem withRetry_delay_schedule_bounded:
  assumes "i < MAX_RETRIES - 1"
    and "\<forall>j<i. \<exists>e. apiCall j = Rejected e \<and> isQuotaErrorString (String_of e)"
    and "apiCall i = Rejected err"
    and "isQuotaErrorString (String_of err)"
  shows "i < length (delays (withRetry apiCall serviceName))
    \<and> (String_of err = pre @ retryDelayMarker @ Number_toString N @ rest
         \<and> (rest = [] \<or> \<not> isDigit (hd rest))
         \<and> \<not> (\<exists>d. isDigit d \<and> str_includes (pre @ retryDelayMarker) (retryDelayMarker @ [d]))
         \<and> N * 1000 + 500 \<le> maxTimerDelay
       \<longrightarrow> delays (withRetry apiCall serviceName) ! i = Finite (of_nat (N * 1000 + 500)))
    \<and> (\<not> (\<exists>d. isDigit d \<and> str_includes (String_of err) (retryDelayMarker @ [d]))
       \<longrightarrow> delays (withRetry apiCall serviceName) ! i = Finite (5000 * 2 ^ i))"
  using withRetry_delay_at [OF assms, of serviceName]
    computeDelay_suggested [of "String_of err" pre N rest i]
    computeDelay_default [of "String_of err" i] assms(1)
  by simp

theorem withRetry_delay_schedule_bounded_witness:
  "delays (withRetry suggestedThenPlain ''video generation'') ! 0 = Finite 17500
   \<and> delays (withRetry suggestedThenPlain ''video generation'') ! 1 = Finite 10000"
proof -
  let ?e0 = "NonError (''429 '' @ retryDelayMarker @ ''17s'')"
  let ?e1 = "NonError ''RESOURCE_EXHAUSTED''"
  have q0: "isQuotaErrorString (String_of ?e0)"
    by (simp add: isQuotaErrorString_def)
  have q1: "isQuotaErrorString (String_of ?e1)"
    by (simp add: isQuotaErrorString_def)
  have n17: "Number_toString 17 = ''17''"
    by code_simp
  have first: "\<not> (\<exists>d. isDigit d \<and> str_includes (''429 '' @ retryDelayMarker) (retryDelayMarker @ [d]))"
    by (rule no_field_without_marker) (simp add: retryDelayMarker_def)
  have none: "\<not> (\<exists>d. isDigit d \<and> str_includes (String_of ?e1) (retryDelayMarker @ [d]))"
    by (rule no_field_without_marker) (simp add: retryDelayMarker_def)
  have rest: "''s'' = [] \<or> \<not> isDigit (hd ''s'')"
    by (simp add: isDigit_def)
  have a0: "delays (withRetry suggestedThenPlain ''video generation'') ! 0
            = Finite (of_nat (17 * 1000 + 500))"
    using withRetry_delay_schedule_bounded [of 0 suggestedThenPlain ?e0 "''video generation''"
        "''429 ''" 17 "''s''"] q0 n17 first rest
    by (simp add: MAX_RETRIES_def maxTimerDelay_def suggestedThenPlain_def)
  have a1: "delays (withRetry suggestedThenPlain ''video generation'') ! 1 = Finite (5000 * 2 ^ 1)"
    using withRetry_delay_schedule_bounded [of 1 suggestedThenPlain ?e1 "''video generation''"]
      q0 q1 none
    by (simp add: MAX_RETRIES_def suggestedThenPlain_def)
  from a0 a1 show ?thesis by simp
qed

section \<open>Facts about the positional descriptor\<close>

lemma third_doubled:
  assumes "0 < w"
  shows "\<not> n_less (n_mul (n_div (Finite w) (Finite 3)) (Finite 2)) (n_div (Finite w) (Finite 3))"
  using toDouble_twice [of "w / 3"] assms by simp

lemma beyond_second_third:
  assumes "0 < w" and "n_less (n_mul (n_div (Finite w) (Finite 3)) (Finite 2)) c"
  shows "\<not> n_less c (n_div (Finite w) (Finite 3))"
  using n_less_trans [OF assms(2)] third_doubled [OF assms(1)] by blast

lemma double_of_nat: "n < 2 ^ 53 \<Longrightarrow> isDouble (of_nat n)"
  by (simp add: isDouble_def toDouble_exact)

text \<open>
  C7, as stated, for the selection with \<open>x = 540.3\<close>, \<open>width = 199.4\<close> and centre height
  540 on a 1920 by 1080 image: all the numbers are doubles, the centre
  \<open>x + width / 2\<close> is left of the first third \<open>1920 / 3\<close> of the width and its height is
  in the middle third, and the phrase is \<open>in the center\<close>, not \<open>in the center left\<close>. The
  sum that the code computes is rounded to 640.
\<close>

theorem getPositionalDescription_rounded_centre:
  "isDouble (x nearThird) \<and> isDouble (width nearThird)
   \<and> isDouble (y nearThird) \<and> isDouble (height nearThird)
   \<and> x nearThird + width nearThird / 2 < 1920 / 3
   \<and> 1080 / 3 \<le> y nearThird + height nearThird / 2
   \<and> y nearThird + height nearThird / 2 \<le> 2 * 1080 / 3
   \<and> getPositionalDescription nearThird 1920 1080 = ''in the center''
   \<and> getPositionalDescription nearThird 1920 1080 \<noteq> ''in the center left''"
proof -
  have dx: "isDouble (2376264529949491 / 4398046511104)"
    by code_simp
  have dw: "isDouble (7015763794513101 / 35184372088832)"
    by code_simp
  have dy: "isDouble 465" "isDouble 150"
    using double_of_nat [of 465] double_of_nat [of 150] by simp_all
  have ints: "toDouble 75 = Finite 75" "toDouble 540 = Finite 540" "toDouble 640 = Finite 640"
    "toDouble 360 = Finite 360" "toDouble 1280 = Finite 1280" "toDouble 720 = Finite 720"
    using toDouble_exact [of 75] toDouble_exact [of 540] toDouble_exact [of 640]
      toDouble_exact [of 360] toDouble_exact [of 1280] toDouble_exact [of 720]
    by simp_all
  have cx: "n_add (Finite (2376264529949491 / 4398046511104))
              (n_div (Finite (7015763794513101 / 35184372088832)) (Finite 2)) = Finite 640"
    by code_simp
  have cy: "n_add (Finite 465) (n_div (Finite 150) (Finite 2)) = Finite 540"
    by (simp add: ints)
  have h: "n_div (Finite 1920) (Finite 3) = Finite 640"
    "n_mul (Finite 640) (Finite 2) = Finite 1280"
    "n_div (Finite 1080) (Finite 3) = Finite 360"
    "n_mul (Finite 360) (Finite 2) = Finite 720"
    by (simp_all add: ints)
  have r: "getPositionalDescription nearThird 1920 1080 = ''in the center''"
    by (simp only: getPositionalDescription_def nearThird_def Let_def Selection.select_convs
          cx cy h) simp
  show ?thesis
    using dx dw dy by (simp add: r) (simp add: nearThird_def)
qed

text \<open>
  C7, amended. For every selection and positive image dimensions, the positional
  descriptor returns one of nine fixed phrases, the one of the cell of the 3 by 3 grid
  that holds the centre, where the centre \<open>(cx, cy)\<close> and the grid lines are the numbers
  that double arithmetic gives: \<open>cx\<close> is the rounded sum of \<open>x\<close> and the rounded half of
  the width, the first line \<open>h1\<close> is the rounded third of the image width and the second
  line \<open>h2\<close> is the rounded double of \<open>h1\<close>, and likewise \<open>cy\<close>, \<open>v1\<close> and \<open>v2\<close>. The
  middle cell, its borders included, gives \<open>in the center\<close>, the four corner cells give
  \<open>in the top/bottom left/right area\<close>, the middle row gives \<open>in the center left/right\<close>
  and the middle column \<open>in the top/bottom center\<close>.
\<close>

theorem getPositionalDescription_computed_grid:
  assumes "0 < imageWidth" and "0 < imageHeight"
    and "cx = n_add (Finite (x sel)) (n_div (Finite (width sel)) (Finite 2))"
    and "cy = n_add (Finite (y sel)) (n_div (Finite (height sel)) (Finite 2))"
    and "h1 = n_div (Finite imageWidth) (Finite 3)" and "h2 = n_mul h1 (Finite 2)"
    and "v1 = n_div (Finite imageHeight) (Finite 3)" and "v2 = n_mul v1 (Finite 2)"
    and "r = getPositionalDescription sel imageWidth imageHeight"
  shows "r \<in> set positionPhrases
    \<and> (\<not> n_less cx h1 \<and> \<not> n_less h2 cx \<and> \<not> n_less cy v1 \<and> \<not> n_less v2 cy
        \<longrightarrow> r = ''in the center'')
    \<and> (n_less cx h1 \<and> n_less cy v1 \<longrightarrow> r = ''in the top left area'')
    \<and> (n_less h2 cx \<and> n_less cy v1 \<longrightarrow> r = ''in the top right area'')
    \<and> (n_less cx h1 \<and> n_less v2 cy \<longrightarrow> r = ''in the bottom left area'')
    \<and> (n_less h2 cx \<and> n_less v2 cy \<longrightarrow> r = ''in the bottom right area'')
    \<and> (n_less cx h1 \<and> \<not> n_less cy v1 \<and> \<not> n_less v2 cy \<longrightarrow> r = ''in the center left'')
    \<and> (n_less h2 cx \<and> \<not> n_less cy v1 \<and> \<not> n_less v2 cy \<longrightarrow> r = ''in the center right'')
    \<and> (\<not> n_less cx h1 \<and> \<not> n_less h2 cx \<and> n_less cy v1 \<longrightarrow> r = ''in the top center'')
    \<and> (\<not> n_less cx h1 \<and> \<not> n_less h2 cx \<and> n_less v2 cy \<longrightarrow> r = ''in the bottom center'')"
proof -
  have hx: "n_less h2 cx \<Longrightarrow> \<not> n_less cx h1"
    unfolding assms(5,6) using assms(1) by (rule beyond_second_third)
  have hy: "n_less v2 cy \<Longrightarrow> \<not> n_less cy v1"
    unfolding assms(7,8) using assms(2) by (rule beyond_second_third)
  have r: "r =
     (let verticalPos =
            (if n_less cy v1 then ''top'' else if n_less v2 cy then ''bottom'' else ''middle'');
          horizontalPos =
            (if n_less cx h1 then ''left'' else if n_less h2 cx then ''right'' else ''center'')
      in if verticalPos = ''middle'' \<and> horizontalPos = ''center'' then ''in the center''
         else if verticalPos = ''middle'' then ''in the center '' @ horizontalPos
         else if horizontalPos = ''center'' then ''in the '' @ verticalPos @ '' center''
         else ''in the '' @ verticalPos @ '' '' @ horizontalPos @ '' area'')"
    unfolding assms(3-9) getPositionalDescription_def Let_def ..
  show ?thesis
    unfolding r using hx hy by (auto simp: positionPhrases_def Let_def)
qed

theorem getPositionalDescription_computed_grid_witness:
  "getPositionalDescription (box 860 465) 1920 1080 = ''in the center''
   \<and> getPositionalDescription (box 0 0) 1920 1080 = ''in the top left area''
   \<and> getPositionalDescription (box 1700 0) 1920 1080 = ''in the top right area''
   \<and> getPositionalDescription (box 0 900) 1920 1080 = ''in the bottom left area''
   \<and> getPositionalDescription (box 1700 900) 1920 1080 = ''in the bottom right area''
   \<and> getPositionalDescription (box 0 465) 1920 1080 = ''in the center left''
   \<and> getPositionalDescription (box 1700 465) 1920 1080 = ''in the center right''
   \<and> getPositionalDescription (box 860 0) 1920 1080 = ''in the top center''
   \<and> getPositionalDescription (box 860 900) 1920 1080 = ''in the bottom center''"
proof -
  have ints: "toDouble 75 = Finite 75" "toDouble 100 = Finite 100" "toDouble 540 = Finite 540"
    "toDouble 960 = Finite 960" "toDouble 975 = Finite 975" "toDouble 1800 = Finite 1800"
    "toDouble 640 = Finite 640" "toDouble 360 = Finite 360" "toDouble 1280 = Finite 1280"
    "toDouble 720 = Finite 720"
    using toDouble_exact [of 75] toDouble_exact [of 100] toDouble_exact [of 540]
      toDouble_exact [of 960] toDouble_exact [of 975] toDouble_exact [of 1800]
      toDouble_exact [of 640] toDouble_exact [of 360] toDouble_exact [of 1280]
      toDouble_exact [of 720]
    by simp_all
  show ?thesis
    using
      getPositionalDescription_computed_grid [where sel = "box 860 465" and imageWidth = 1920
        and imageHeight = 1080, OF _ _ refl refl refl refl refl refl refl]
      getPositionalDescription_computed_grid [where sel = "box 0 0" and imageWidth = 1920
        and imageHeight = 1080, OF _ _ refl refl refl refl refl refl refl]
      getPositionalDescription_computed_grid [where sel = "box 1700 0" and imageWidth = 1920
        and imageHeight = 1080, OF _ _ refl refl refl refl refl refl refl]
      getPositionalDescription_computed_grid [where sel = "box 0 900" and imageWidth = 1920
        and imageHeight = 1080, OF _ _ refl refl refl refl refl refl refl]
      getPositionalDescription_computed_grid [where sel = "box 1700 900" and imageWidth = 1920
        and imageHeight = 1080, OF _ _ refl refl refl refl refl refl refl]
      getPositionalDescription_computed_grid [where sel = "box 0 465" and imageWidth = 1920
        and imageHeight = 1080, OF _ _ refl refl refl refl refl refl refl]
      getPositionalDescription_computed_grid [where sel = "box 1700 465" and imageWidth = 1920
        and imageHeight = 1080, OF _ _ refl refl refl refl refl refl refl]
      getPositionalDescription_computed_grid [where sel = "box 860 0" and imageWidth = 1920
        and imageHeight = 1080, OF _ _ refl refl refl refl refl refl refl]
      getPositionalDescription_computed_grid [where sel = "box 860 900" and imageWidth = 1920
        and imageHeight = 1080, OF _ _ refl refl refl refl refl refl refl]
    by (simp add: box_def ints)
qed

section \<open>Facts about the application state machine\<close>

lemmas handler_defs =
  handleFileSelect_begin_def handleFileSelect_settle_def handleRemoveLogo_begin_def
  handleRemoveLogo_settle_def handleGenerateVideo_begin_def handleGenerateVideo_settle_def
  handleReset_def handleChangeApiKey_begin_def handleChangeApiKey_settle_def checkApiKey_def
  progressTimer_def progressEffect_def rerender_def

lemmas view_defs =
  renderContent_def removeButtonDisabled_def removeOffered_def selectOffered_def
  generateOffered_def resetOffered_def uploadOffered_def

lemmas step_defs = step_def commit_def issue_def settle_def

lemma step_simps:
  "step (KeyCheckDone a) c = commit c (checkApiKey a (app c))"
  "step (FileChosen file) c =
     (if uploadOffered (app c) file
      then issue (Some (ExtractFrame file)) (commit c (handleFileSelect_begin file (app c)))
      else c)"
  "step (ExtractSettled k r) c =
     (case pendingAt c k of
        Some (ExtractFrame file) \<Rightarrow> settle k r handleFileSelect_settle c
      | _ \<Rightarrow> c)"
  "step (SelectionDrawn sel) c =
     (if selectOffered (app c) then commit c ((app c)\<lparr>selection := Some sel\<rparr>) else c)"
  "step RemoveClicked c =
     (if removeOffered (app c)
      then (case handleRemoveLogo_begin (app c) of (s', req) \<Rightarrow> issue req (commit c s'))
      else c)"
  "step (InpaintSettled k ienv) c =
     (case pendingAt c k of
        Some (Inpaint img sel') \<Rightarrow>
          settle k (removeObjectFromFrame ienv) handleRemoveLogo_settle c
      | _ \<Rightarrow> c)"
  "step GenerateVideoClicked c =
     (if generateOffered (app c)
      then (case handleGenerateVideo_begin (app c) of (s', req) \<Rightarrow> issue req (commit c s'))
      else c)"
  "step (AnimateSettled k aenv) c =
     (case pendingAt c k of
        Some (Animate img) \<Rightarrow>
          settle k (generateVideoFromFrame aenv) handleGenerateVideo_settle c
      | _ \<Rightarrow> c)"
  "step ResetClicked c = (if resetOffered (app c) then commit c (handleReset (app c)) else c)"
  "step (ChangeKeyClicked b) c =
     (case handleChangeApiKey_begin b (app c) of (s', req) \<Rightarrow> issue req (commit c s'))"
  "step (KeySettled k kr) c =
     (case pendingAt c k of
        Some (SelectKey wasQuotaError hadImage hadFrame) \<Rightarrow>
          settle k kr (handleChangeApiKey_settle wasQuotaError hadImage hadFrame) c
      | _ \<Rightarrow> c)"
  "step (TimerFired v) c = commit c (progressTimer v (app c))"
  by (simp_all add: step_def Let_def)


text \<open>
  C6. The reset handler, from any state, returns to \<open>idle\<close> with every session field
  cleared: the video file, the frame, the selection, the processed image and the
  processed video are back at their initial empty values, the error message and the quota
  flag are cleared and the progress is 0. Only the credential flag is kept. The progress
  effect that follows the change of state leaves this state as it is.
\<close>

theorem handleReset_clears:
  "appState (handleReset s) = Idle
   \<and> videoFile (handleReset s) = None
   \<and> frameSrc (handleReset s) = None
   \<and> selection (handleReset s) = None
   \<and> processedImageSrc (handleReset s) = None
   \<and> processedVideoUrl (handleReset s) = None
   \<and> error (handleReset s) = None
   \<and> isQuotaError (handleReset s) = False
   \<and> progress (handleReset s) = 0
   \<and> handleReset s = initialApp\<lparr>isApiKeySelected := isApiKeySelected s\<rparr>
   \<and> rerender s (handleReset s) = handleReset s"
  by (simp add: handleReset_def initialApp_def rerender_def progressEffect_def)

text \<open>
  C8. In \<open>video_loaded\<close>, a click on the removal button with no frame loaded, with no
  selection, or with a selection less than 5 pixels wide or high, changes nothing: no
  request is issued and every field of the state keeps its value.
\<close>

theorem confirm_removal_rejected:
  assumes "appState (app c) = Video_loaded"
    and "\<not> truthy (frameSrc (app c)) \<or> selection (app c) = None
         \<or> (\<exists>r. selection (app c) = Some r \<and> (width r < 5 \<or> height r < 5))"
  shows "step RemoveClicked c = c"
proof -
  have "\<not> removeOffered (app c)"
    using assms
    by (cases "frameSrc (app c)")
       (auto simp: removeOffered_def renderContent_def removeButtonDisabled_def)
  then show ?thesis by (simp add: step_def)
qed

theorem confirm_removal_rejected_witness:
  "step RemoveClicked \<lparr>app = frameShown\<lparr>frameSrc := None\<rparr>, pending = []\<rparr>
     = \<lparr>app = frameShown\<lparr>frameSrc := None\<rparr>, pending = []\<rparr>
   \<and> step RemoveClicked \<lparr>app = frameShown\<lparr>selection := Some narrowBox\<rparr>, pending = []\<rparr>
     = \<lparr>app = frameShown\<lparr>selection := Some narrowBox\<rparr>, pending = []\<rparr>"
  using confirm_removal_rejected [of "\<lparr>app = frameShown\<lparr>frameSrc := None\<rparr>, pending = []\<rparr>"]
    confirm_removal_rejected
      [of "\<lparr>app = frameShown\<lparr>selection := Some narrowBox\<rparr>, pending = []\<rparr>"]
  by (simp add: frameShown_def initialApp_def narrowBox_def)

lemma confirm_removal_accepted:
  assumes "appState (app c) = Video_loaded" and "frameSrc (app c) = Some src" and "src \<noteq> []"
    and "selection (app c) = Some r" and "5 \<le> width r" and "5 \<le> height r"
  shows "step RemoveClicked c =
         c\<lparr>app := (app c)\<lparr>appState := Processing, error := None, isQuotaError := False,
                           progress := 0\<rparr>,
           pending := pending c @ [Inpaint (splitComma1 src) r]\<rparr>"
  using assms
  by (simp add: step_defs view_defs handler_defs Let_def)





lemma inpaint_success_step:
  assumes "pendingAt c k = Some (Inpaint img sel)" and "appState (app c) = Processing"
    and "removeObjectFromFrame env = Resolved v"
  shows "handleRemoveLogo_settle (Resolved v) (app c) =
           (app c)\<lparr>progress := 100,
                   processedImageSrc := Some (''data:image/png;base64,'' @ v),
                   appState := Complete\<rparr>"
    and "step (InpaintSettled k env) c =
           \<lparr>app = (app c)\<lparr>progress := 0,
                   processedImageSrc := Some (''data:image/png;base64,'' @ v),
                   appState := Complete\<rparr>,
            pending = take k (pending c) @ drop (Suc k) (pending c)\<rparr>"
  using assms
  by (simp_all add: step_defs handler_defs Let_def)

lemma removeObjectFromFrame_first_ok:
  "env 0 = InlineData d \<Longrightarrow> removeObjectFromFrame env = Resolved d"
  using withRetry_loop_settle [of 0 "\<lambda>k. inpaintCall (env k)" d "''image processing''" "[]"]
  by (simp add: removeObjectFromFrame_def withRetry_def MAX_RETRIES_def)

lemma run_uploadAndSelect:
  "run uploadAndSelect initialConfig =
     \<lparr>app = frameShown\<lparr>appState := Processing, selection := Some centredBox\<rparr>,
      pending = [Inpaint (Some ''AAAA'') centredBox]\<rparr>"
  by (simp add: run_def uploadAndSelect_def initialConfig_def initialApp_def frameShown_def
        clip_def frameUrl_def centredBox_def step_defs view_defs handler_defs Let_def
        splitComma1_def pendingAt_def)

lemma run_append: "run (evs @ evs') c = run evs' (run evs c)"
  by (simp add: run_def)

lemma run_single: "run [ev] c = step ev c"
  by (simp add: run_def)

lemma run_inpaintSucceeds:
  "run inpaintSucceeds initialConfig =
     \<lparr>app = frameShown\<lparr>selection := Some centredBox,
              processedImageSrc := Some ''data:image/png;base64,BBBB'',
              appState := Complete\<rparr>,
      pending = []\<rparr>"
proof -
  have "run inpaintSucceeds initialConfig =
        step (InpaintSettled 0 (\<lambda>k. InlineData ''BBBB'')) (run uploadAndSelect initialConfig)"
    by (simp add: inpaintSucceeds_def run_append run_single)
  also have "\<dots> = \<lparr>app = (frameShown\<lparr>appState := Processing, selection := Some centredBox\<rparr>)
                      \<lparr>progress := 0,
                       processedImageSrc := Some (''data:image/png;base64,'' @ ''BBBB''),
                       appState := Complete\<rparr>,
                    pending = []\<rparr>"
    unfolding run_uploadAndSelect
    by (subst inpaint_success_step(2) [where img = "Some ''AAAA''" and sel = centredBox and v = "''BBBB''"])
       (simp_all add: removeObjectFromFrame_first_ok pendingAt_def)
  finally show ?thesis by (simp add: frameShown_def initialApp_def)
qed

text \<open>
  C4. A session in which the upload succeeds, a 200 by 150 rectangle is drawn, the removal
  is confirmed and the inpainting call succeeds: the handler stores the processed image,
  sets the progress to 100 and the state to \<open>complete\<close>, and the progress effect, which
  runs because \<open>appState\<close> has changed, sets the progress back to 0. The state that
  results is \<open>complete\<close> with progress 0, not 100.
\<close>

theorem inpaint_success_progress_reset:
  "progress (handleRemoveLogo_settle (Resolved ''BBBB'') (app (run uploadAndSelect initialConfig)))
     = 100
   \<and> appState (app (run inpaintSucceeds initialConfig)) = Complete
   \<and> processedImageSrc (app (run inpaintSucceeds initialConfig))
       = Some ''data:image/png;base64,BBBB''
   \<and> progress (app (run inpaintSucceeds initialConfig)) = 0
   \<and> progress (app (run inpaintSucceeds initialConfig)) \<noteq> 100"
  by (simp add: run_inpaintSucceeds run_uploadAndSelect handleRemoveLogo_settle_def
        frameShown_def initialApp_def)

section \<open>Facts about a missing credential\<close>

lemma generateVideoFromFrame_Rejected_Error:
  "generateVideoFromFrame env = Rejected e \<Longrightarrow> instanceofError e"
  by (auto simp: generateVideoFromFrame_def Let_def split: outcome.splits if_splits)

lemma key_not_found_not_quota:
  "\<not> isQuotaErrorString
       (String_of (JsError ''Error'' ''API key not found. Please select your API key again.''))"
  by (simp add: isQuotaErrorString_def)

lemma key_not_found_passes:
  "str_includes (String_of (JsError ''Error'' ''API key not found. Please select your API key again.''))
     ''API key not found''"
  by simp

lemma generateVideoFromFrame_entity_not_found:
  assumes "env 0 = DownloadNotOk errorText status"
    and "str_includes errorText ''Requested entity was not found.''"
  shows "generateVideoFromFrame env =
         Rejected (JsError ''Error'' ''API key not found. Please select your API key again.'')"
proof -
  let ?e = "JsError ''Error'' ''API key not found. Please select your API key again.''"
  have call: "(\<lambda>k. animateCall (env k)) 0 = Rejected ?e"
    using assms by simp
  have "withRetry (\<lambda>k. animateCall (env k)) ''video generation'' =
        \<lparr>settled = Rejected ?e, delays = [], attempts = 0 + 1\<rparr>"
    unfolding withRetry_def
    using call key_not_found_not_quota
    by (intro withRetry_loop_nonquota) (simp_all add: MAX_RETRIES_def)
  then have "settled (withRetry (\<lambda>k. animateCall (env k)) ''video generation'') = Rejected ?e"
    by simp
  then show ?thesis
    using key_not_found_passes
    by (simp add: generateVideoFromFrame_def Let_def del: String_of.simps)
qed

text \<open>
  C10. When the video generation fails with an error whose message contains
  \<open>API key not found\<close>, the state machine sets the quota flag, sets the credential
  flag to absent and enters \<open>error\<close>, so that the failure is shown in the quota panel.
  One way there: the download of the generated video answers with a body containing
  \<open>Requested entity was not found.\<close>; then \<open>generateVideoFromFrame\<close> rejects with
  the error \<open>API key not found. Please select your API key again.\<close>
\<close>

theorem animate_key_not_found:
  "(pendingAt c k = Some (Animate img) \<and> generateVideoFromFrame env = Rejected e
      \<and> str_includes (errorMessageOf e) ''API key not found''
      \<and> s' = app (step (AnimateSettled k env) c)
    \<longrightarrow> isQuotaError s' = True \<and> isApiKeySelected s' = Some False \<and> appState s' = Error
        \<and> error s' = Some (errorMessageOf e) \<and> renderContent s' = QuotaErrorPanel)
   \<and> (env 0 = DownloadNotOk errorText status
      \<and> str_includes errorText ''Requested entity was not found.''
    \<longrightarrow> generateVideoFromFrame env =
          Rejected (JsError ''Error'' ''API key not found. Please select your API key again.''))"
proof (intro conjI impI)
  assume a: "pendingAt c k = Some (Animate img) \<and> generateVideoFromFrame env = Rejected e
      \<and> str_includes (errorMessageOf e) ''API key not found''
      \<and> s' = app (step (AnimateSettled k env) c)"
  then have s': "s' = rerender (app c) (handleGenerateVideo_settle (Rejected e) (app c))"
    by (simp add: step_simps settle_def commit_def)
  from a have k: "str_includes (errorMessageOf e) ''API key not found''" by simp
  show "isQuotaError s' = True" "isApiKeySelected s' = Some False" "appState s' = Error"
    "error s' = Some (errorMessageOf e)" "renderContent s' = QuotaErrorPanel"
    using k unfolding s'
    by (simp_all add: handleGenerateVideo_settle_def rerender_def progressEffect_def Let_def
          renderContent_def)
next
  assume "env 0 = DownloadNotOk errorText status
      \<and> str_includes errorText ''Requested entity was not found.''"
  then show "generateVideoFromFrame env =
          Rejected (JsError ''Error'' ''API key not found. Please select your API key again.'')"
    using generateVideoFromFrame_entity_not_found by blast
qed

theorem animate_key_not_found_witness:
  "isQuotaError (app (step (AnimateSettled 0 entityNotFound) generatingConfig)) = True
   \<and> isApiKeySelected (app (step (AnimateSettled 0 entityNotFound) generatingConfig)) = Some False
   \<and> appState (app (step (AnimateSettled 0 entityNotFound) generatingConfig)) = Error
   \<and> renderContent (app (step (AnimateSettled 0 entityNotFound) generatingConfig)) = QuotaErrorPanel"
proof -
  let ?e = "JsError ''Error'' ''API key not found. Please select your API key again.''"
  have r: "generateVideoFromFrame entityNotFound = Rejected ?e"
    using animate_key_not_found [of generatingConfig 0 "Some ''BBBB''" entityNotFound ?e _
        "''Requested entity was not found.''" 404]
    by (simp add: entityNotFound_def)
  have k: "str_includes (errorMessageOf ?e) ''API key not found''"
    by simp
  show ?thesis
    using animate_key_not_found [of generatingConfig 0 "Some ''BBBB''" entityNotFound ?e
        "app (step (AnimateSettled 0 entityNotFound) generatingConfig)"] r k
    by (simp add: generatingConfig_def pendingAt_def)
qed


section \<open>Facts about failures\<close>

lemma str_includes_nonempty: "str_includes s sub \<Longrightarrow> sub \<noteq> [] \<Longrightarrow> s \<noteq> []"
  by (cases s) auto

lemma removeObjectFromFrame_message:
  assumes "removeObjectFromFrame env = Rejected e"
  shows "errorMessageOf e \<noteq> []"
  using assms
  by (auto simp: removeObjectFromFrame_def split: outcome.splits thrown.splits if_splits
           dest: str_includes_nonempty)

lemma quotaExceededMessage_marker: "str_includes (quotaExceededMessage serviceName) ''API quota''"
proof -
  have "quotaExceededMessage serviceName =
        ''You have exceeded your '' @ ''API quota'' @ ('' for '' @ serviceName @
        ''. After multiple retries, the service is still unavailable. Please check your plan and billing details, or try again later.'')"
    by (simp add: quotaExceededMessage_def)
  then show ?thesis
    by (simp only: str_includes_middle)
qed

lemma removeObjectFromFrame_quotaThrice:
  "removeObjectFromFrame quotaThrice =
     Rejected (JsError ''Error'' (quotaExceededMessage ''image processing''))"
proof -
  let ?call = "\<lambda>k. inpaintCall (quotaThrice k)"
  let ?waited = "[computeDelay 0 (String_of (NonError ''429'')),
                  computeDelay 1 (String_of (NonError ''429''))]"
  have q: "isQuotaErrorString (String_of (NonError ''429''))"
    by (simp add: isQuotaErrorString_def)
  have "withRetry ?call ''image processing'' =
        withRetry_loop ?call ''image processing'' 2 ?waited"
    using q by (intro withRetry_two_quota) (simp_all add: quotaThrice_def)
  also have "\<dots> = withRetry_loop ?call ''image processing'' 3 ?waited"
    using q
    by (subst withRetry_loop_quota [of 2 ?call "NonError ''429''" 3])
       (simp_all add: MAX_RETRIES_def quotaThrice_def)
  also have "\<dots> = \<lparr>settled = Rejected (JsError ''Error'' (quotaExceededMessage ''image processing'')),
                     delays = ?waited, attempts = 3\<rparr>"
    by (subst withRetry_loop_exhausted) (simp_all add: MAX_RETRIES_def)
  finally have "settled (withRetry ?call ''image processing'') =
                Rejected (JsError ''Error'' (quotaExceededMessage ''image processing''))"
    by simp
  then show ?thesis
    by (simp add: removeObjectFromFrame_def quotaExceededMessage_marker)
qed

lemma inpaint_quota_step:
  assumes "pendingAt c k = Some (Inpaint img sel)"
  shows "step (InpaintSettled k quotaThrice) c =
           \<lparr>app = rerender (app c)
                    ((app c)\<lparr>progress := 0, isQuotaError := True,
                             error := Some (quotaExceededMessage ''image processing''),
                             appState := Error\<rparr>),
            pending = take k (pending c) @ drop (Suc k) (pending c)\<rparr>"
  using assms
  by (simp add: step_simps settle_def commit_def removeObjectFromFrame_quotaThrice
        handleRemoveLogo_settle_def quotaExceededMessage_marker)

lemma run_inpaintQuotaFails:
  "run inpaintQuotaFails initialConfig =
     \<lparr>app = frameShown\<lparr>selection := Some centredBox, isQuotaError := True,
              error := Some (quotaExceededMessage ''image processing''), appState := Error\<rparr>,
      pending = []\<rparr>"
  unfolding inpaintQuotaFails_def run_append run_uploadAndSelect run_single
  by (subst inpaint_quota_step [where img = "Some ''AAAA''" and sel = centredBox])
     (simp_all add: pendingAt_def rerender_def progressEffect_def frameShown_def initialApp_def)

text \<open>
  The session \<open>staleKeyChange\<close>, in four parts: the two key dialogs and the removal
  started between their answers; the second answer, which takes the machine out of
  \<open>processing\<close> while that removal is pending, and the removal started then; the success
  of the first removal, the reset, and the failure of the second; the last key change.
\<close>

lemma stale_part1:
  "run [ChangeKeyClicked True, ChangeKeyClicked True, KeySettled 0 (Resolved True), RemoveClicked]
       (run inpaintQuotaFails initialConfig) =
     \<lparr>app = frameShown\<lparr>selection := Some centredBox, appState := Processing\<rparr>,
      pending = [SelectKey True None (Some frameUrl), Inpaint (Some ''AAAA'') centredBox]\<rparr>"
  unfolding run_inpaintQuotaFails
  by (simp add: run_def step_simps issue_def commit_def settle_def pendingAt_def view_defs
        handler_defs Let_def frameShown_def initialApp_def frameUrl_def centredBox_def
        splitComma1_def)

lemma stale_part2:
  "run [KeySettled 0 (Resolved True), RemoveClicked]
       \<lparr>app = frameShown\<lparr>selection := Some centredBox, appState := Processing\<rparr>,
        pending = [SelectKey True None (Some frameUrl), Inpaint (Some ''AAAA'') centredBox]\<rparr> =
     \<lparr>app = frameShown\<lparr>selection := Some centredBox, appState := Processing\<rparr>,
      pending = [Inpaint (Some ''AAAA'') centredBox, Inpaint (Some ''AAAA'') centredBox]\<rparr>"
  by (simp add: run_def step_simps issue_def commit_def settle_def pendingAt_def view_defs
        handler_defs Let_def frameShown_def initialApp_def frameUrl_def centredBox_def
        splitComma1_def)

lemma stale_part3:
  "run [InpaintSettled 0 (\<lambda>k. InlineData ''BBBB''), ResetClicked, InpaintSettled 0 quotaThrice]
       \<lparr>app = frameShown\<lparr>selection := Some centredBox, appState := Processing\<rparr>,
        pending = [Inpaint (Some ''AAAA'') centredBox, Inpaint (Some ''AAAA'') centredBox]\<rparr> =
     \<lparr>app = initialApp\<lparr>isApiKeySelected := Some True, isQuotaError := True,
              error := Some (quotaExceededMessage ''image processing''), appState := Error\<rparr>,
      pending = []\<rparr>"
proof -
  let ?c = "\<lparr>app = frameShown\<lparr>selection := Some centredBox, appState := Processing\<rparr>,
             pending = [Inpaint (Some ''AAAA'') centredBox, Inpaint (Some ''AAAA'') centredBox]\<rparr>"
  have a: "step (InpaintSettled 0 (\<lambda>k. InlineData ''BBBB'')) ?c =
           \<lparr>app = frameShown\<lparr>selection := Some centredBox,
                    processedImageSrc := Some ''data:image/png;base64,BBBB'',
                    appState := Complete\<rparr>,
            pending = [Inpaint (Some ''AAAA'') centredBox]\<rparr>"
    by (subst inpaint_success_step(2) [where img = "Some ''AAAA''" and sel = centredBox and v = "''BBBB''"])
       (simp_all add: removeObjectFromFrame_first_ok pendingAt_def frameShown_def initialApp_def)
  have b: "step ResetClicked
             \<lparr>app = frameShown\<lparr>selection := Some centredBox,
                      processedImageSrc := Some ''data:image/png;base64,BBBB'',
                      appState := Complete\<rparr>,
              pending = [Inpaint (Some ''AAAA'') centredBox]\<rparr> =
           \<lparr>app = initialApp\<lparr>isApiKeySelected := Some True\<rparr>,
            pending = [Inpaint (Some ''AAAA'') centredBox]\<rparr>"
    by (simp add: step_simps view_defs commit_def handleReset_def rerender_def progressEffect_def
          frameShown_def initialApp_def frameUrl_def)
  have c: "step (InpaintSettled 0 quotaThrice)
             \<lparr>app = initialApp\<lparr>isApiKeySelected := Some True\<rparr>,
              pending = [Inpaint (Some ''AAAA'') centredBox]\<rparr> =
           \<lparr>app = initialApp\<lparr>isApiKeySelected := Some True, isQuotaError := True,
                    error := Some (quotaExceededMessage ''image processing''), appState := Error\<rparr>,
            pending = []\<rparr>"
    by (subst inpaint_quota_step [where img = "Some ''AAAA''" and sel = centredBox])
       (simp_all add: pendingAt_def rerender_def progressEffect_def initialApp_def)
  show ?thesis
    by (simp add: run_def a b c)
qed

lemma stale_part4:
  "run [ChangeKeyClicked True, KeySettled 0 (Resolved True)]
       \<lparr>app = initialApp\<lparr>isApiKeySelected := Some True, isQuotaError := True,
                error := Some (quotaExceededMessage ''image processing''), appState := Error\<rparr>,
        pending = []\<rparr> =
     \<lparr>app = initialApp\<lparr>isApiKeySelected := Some True, appState := Error\<rparr>, pending = []\<rparr>"
  by (simp add: run_def step_simps issue_def commit_def settle_def pendingAt_def
        handler_defs Let_def initialApp_def)

text \<open>
  C9. The session \<open>staleKeyChange\<close> ends in the \<open>error\<close> state with no error message,
  shown by the generic error panel. Every failure in it has set a message: the state
  before the last key change is \<open>error\<close> with the quota message. The last key change
  starts with no frame and no processed image left, so its answer clears the message
  and the quota flag and leaves \<open>appState\<close> as it is.
\<close>

theorem key_change_clears_message_in_error:
  "appState (app (run staleKeyChange initialConfig)) = Error
   \<and> error (app (run staleKeyChange initialConfig)) = None
   \<and> renderContent (app (run staleKeyChange initialConfig)) = GenericErrorPanel None
   \<and> error (app (run (butlast (butlast staleKeyChange)) initialConfig))
       = Some (quotaExceededMessage ''image processing'')
   \<and> appState (app (run (butlast (butlast staleKeyChange)) initialConfig)) = Error"
proof -
  let ?p1 = "[ChangeKeyClicked True, ChangeKeyClicked True, KeySettled 0 (Resolved True),
              RemoveClicked]"
  let ?p2 = "[KeySettled 0 (Resolved True), RemoveClicked]"
  let ?p3 = "[InpaintSettled 0 (\<lambda>k. InlineData ''BBBB''), ResetClicked,
              InpaintSettled 0 quotaThrice]"
  let ?p4 = "[ChangeKeyClicked True, KeySettled 0 (Resolved True)]"
  have all: "staleKeyChange = inpaintQuotaFails @ ?p1 @ ?p2 @ ?p3 @ ?p4"
    by (simp add: staleKeyChange_def)
  have most: "butlast (butlast staleKeyChange) = inpaintQuotaFails @ ?p1 @ ?p2 @ ?p3"
    by (simp add: staleKeyChange_def butlast_append)
  have before: "run (butlast (butlast staleKeyChange)) initialConfig =
      \<lparr>app = initialApp\<lparr>isApiKeySelected := Some True, isQuotaError := True,
               error := Some (quotaExceededMessage ''image processing''), appState := Error\<rparr>,
       pending = []\<rparr>"
    unfolding most run_append stale_part1 stale_part2 stale_part3 ..
  have "run staleKeyChange initialConfig =
      \<lparr>app = initialApp\<lparr>isApiKeySelected := Some True, appState := Error\<rparr>, pending = []\<rparr>"
    unfolding all run_append stale_part1 stale_part2 stale_part3 stale_part4 ..
  then show ?thesis
    unfolding before by (simp add: initialApp_def renderContent_def)
qed

end
